theory Spec2Isabelle
  imports Main "HOL-Library.Log_Nat"
begin

section \<open>Data model (models.py)\<close>

text \<open>
  Every table of models.py is a list of rows, in table order; a query with
  \<open>.filter(...).all()\<close> is \<open>filter\<close> on that list and \<open>.filter(...).first()\<close> is
  \<open>find\<close>. Integer columns are Python integers (\<open>int\<close>). A \<open>Numeric(10, 2)\<close>
  price is the number of hundredths it denotes. The order total is computed by the
  source in Python floats; the float type and its operations are parameters of the
  model (\<open>'f\<close> and a record of operations), so the properties of stock, baskets and
  orders hold however floats round; \<open>binary64\<close> below gives the operations Python
  has, for the properties of the total itself.
\<close>

record user_row =
  u_id :: int
  u_name :: string
  u_email :: string

record product_row =
  p_id :: int
  p_name :: string
  p_description :: "string option"
  p_price :: int
  p_stock :: int

record basket_row =
  bi_id :: int
  bi_user_id :: int
  bi_product_id :: int
  bi_quantity :: int

record 'f order_row =
  o_id :: int
  o_user_id :: int
  o_order_date :: int
  o_total :: 'f

record order_item_row =
  oi_id :: int
  oi_order_id :: int
  oi_product_id :: int
  oi_quantity :: int
  oi_price_at_purchase :: int

record 'f db =
  users :: "user_row list"
  products :: "product_row list"
  basket_items :: "basket_row list"
  orders :: "'f order_row list"
  order_items :: "order_item_row list"

text \<open>
  The float operations \<open>create_order\<close> uses: \<open>float(product.price)\<close>, float times
  integer, float addition, and the initial accumulator \<open>0\<close>.
\<close>

record 'f arith =
  to_float :: "int \<Rightarrow> 'f"
  float_mul :: "'f \<Rightarrow> int \<Rightarrow> 'f"
  float_add :: "'f \<Rightarrow> 'f \<Rightarrow> 'f"
  float_zero :: 'f

text \<open>
  Each \<open>HTTPException\<close> the handlers raise, by kind; \<open>status_code\<close> gives its HTTP
  status. \<open>InternalError\<close> stands for an exception no handler catches (status 500).
\<close>

datatype error =
    EmptyBasket
  | ProductNotFound int
  | InsufficientStock int
  | OrderNotFound
  | Unauthenticated
  | InternalError

fun status_code :: "error \<Rightarrow> nat" where
  "status_code EmptyBasket = 400"
| "status_code (ProductNotFound _) = 404"
| "status_code (InsufficientStock _) = 400"
| "status_code OrderNotFound = 404"
| "status_code Unauthenticated = 401"
| "status_code InternalError = 500"

text \<open>
  The store gives a new row a primary key that no row of the table has: one more
  than the largest key present.
\<close>

definition fresh_id :: "int list \<Rightarrow> int" where
  "fresh_id ids = fold max ids 0 + 1"

definition get_product :: "product_row list \<Rightarrow> int \<Rightarrow> product_row option" where
  "get_product ps pid = find (\<lambda>p. p_id p = pid) ps"

definition set_stock :: "product_row list \<Rightarrow> int \<Rightarrow> int \<Rightarrow> product_row list" where
  "set_stock ps pid v = map (\<lambda>p. if p_id p = pid then p\<lparr>p_stock := v\<rparr> else p) ps"

definition stock_of :: "'f db \<Rightarrow> int \<Rightarrow> int option" where
  "stock_of d pid = map_option p_stock (get_product (products d) pid)"

section \<open>Order workflow (main.py)\<close>

subsection \<open>cancel\_order\<close>

fun restore_stock :: "order_item_row list \<Rightarrow> product_row list \<Rightarrow> product_row list" where
  "restore_stock [] ps = ps"
| "restore_stock (item # rest) ps =
     (case get_product ps (oi_product_id item) of
        None \<Rightarrow> restore_stock rest ps
      | Some product \<Rightarrow>
          restore_stock rest
            (set_stock ps (oi_product_id item) (p_stock product + oi_quantity item)))"

definition cancel_order ::
  "'f db \<Rightarrow> int \<Rightarrow> int \<Rightarrow> 'f db \<times> (error + 'f order_row)" where
  "cancel_order d user_id order_id =
     (case find (\<lambda>r. o_id r = order_id \<and> o_user_id r = user_id) (orders d) of
        None \<Rightarrow> (d, Inl OrderNotFound)
      | Some ord \<Rightarrow>
          (d\<lparr>products :=
               restore_stock (filter (\<lambda>i. oi_order_id i = order_id) (order_items d))
                 (products d)\<rparr>,
           Inr ord))"

subsection \<open>create\_order\<close>

text \<open>
  The first loop of \<open>create_order\<close>: it looks each basket row's product up, raises
  when the product is missing or has less stock than the row asks for, and adds the
  line's price to the total. It writes nothing.
\<close>

fun create_order_total ::
  "'f arith \<Rightarrow> product_row list \<Rightarrow> basket_row list \<Rightarrow> 'f \<Rightarrow> error + 'f" where
  "create_order_total A ps [] tot = Inr tot"
| "create_order_total A ps (item # rest) tot =
     (case get_product ps (bi_product_id item) of
        None \<Rightarrow> Inl (ProductNotFound (bi_product_id item))
      | Some product \<Rightarrow>
          if p_stock product < bi_quantity item then Inl (InsufficientStock (p_id product))
          else create_order_total A ps rest
                 (float_add A tot (float_mul A (to_float A (p_price product))
                    (bi_quantity item))))"

text \<open>
  The second loop, on the session's pending state: for each basket row it queries the
  product again, adds the order item, lowers the stock and deletes the basket row.
  The source reads \<open>product.price\<close> without testing \<open>product\<close>, so a missing product is
  an uncaught exception here.
\<close>

fun create_order_items :: "int \<Rightarrow> basket_row list \<Rightarrow> 'f db \<Rightarrow> error + 'f db" where
  "create_order_items order_id [] d = Inr d"
| "create_order_items order_id (item # rest) d =
     (case get_product (products d) (bi_product_id item) of
        None \<Rightarrow> Inl InternalError
      | Some product \<Rightarrow>
          create_order_items order_id rest
            (d\<lparr>order_items := order_items d @
                  [\<lparr>oi_id = fresh_id (map oi_id (order_items d)),
                    oi_order_id = order_id,
                    oi_product_id = bi_product_id item,
                    oi_quantity = bi_quantity item,
                    oi_price_at_purchase = p_price product\<rparr>],
               products := set_stock (products d) (p_id product)
                             (p_stock product - bi_quantity item),
               basket_items := filter (\<lambda>b. bi_id b \<noteq> bi_id item) (basket_items d)\<rparr>))"

text \<open>
  \<open>create_order_commits\<close> is the handler with its two calls of \<open>db.commit()\<close> made
  explicit: it returns the stores the handler makes durable, oldest first, and the
  handler's answer. A raise before the first commit persists nothing; a raise in the
  second loop rolls the session back to the first commit. \<open>now\<close> is the store's clock
  (the server default of \<open>order_date\<close>).
\<close>

definition create_order_commits ::
  "'f arith \<Rightarrow> int \<Rightarrow> 'f db \<Rightarrow> int \<Rightarrow> 'f db list \<times> (error + 'f order_row)" where
  "create_order_commits A now d user_id =
     (let basket = filter (\<lambda>b. bi_user_id b = user_id) (basket_items d) in
      if basket = [] then ([], Inl EmptyBasket)
      else
        case create_order_total A (products d) basket (float_zero A) of
          Inl e \<Rightarrow> ([], Inl e)
        | Inr tot \<Rightarrow>
            let db_order = \<lparr>o_id = fresh_id (map o_id (orders d)), o_user_id = user_id,
                            o_order_date = now, o_total = tot\<rparr>;
                d1 = d\<lparr>orders := orders d @ [db_order]\<rparr>
            in case create_order_items (o_id db_order) basket d1 of
                 Inl e \<Rightarrow> ([d1], Inl e)
               | Inr d2 \<Rightarrow> ([d1, d2], Inr db_order))"

text \<open>The store the handler leaves behind is the last one committed.\<close>

definition create_order ::
  "'f arith \<Rightarrow> int \<Rightarrow> 'f db \<Rightarrow> int \<Rightarrow> 'f db \<times> (error + 'f order_row)" where
  "create_order A now d user_id =
     (case create_order_commits A now d user_id of (commits, res) \<Rightarrow> (last (d # commits), res))"

subsection \<open>The two transactions of create\_order\<close>

text \<open>
  The handler's two transactions taken apart, so that calls can be interleaved at
  their commits. \<open>create_order_begin\<close> is the first transaction, up to the commit
  after the order row is added: it returns the store it leaves and, when it does
  not raise, what the handler keeps in memory, the basket rows it loaded and the order
  row. \<open>create_order_finish\<close> is the second transaction, from \<open>db.refresh\<close> to the
  last commit, run on the store as it is by then: it queries each product again and
  does not test the stock again.
\<close>

definition create_order_begin ::
  "'f arith \<Rightarrow> int \<Rightarrow> 'f db \<Rightarrow> int \<Rightarrow> 'f db \<times> (error + basket_row list \<times> 'f order_row)" where
  "create_order_begin A now d user_id =
     (let basket = filter (\<lambda>b. bi_user_id b = user_id) (basket_items d) in
      if basket = [] then (d, Inl EmptyBasket)
      else
        case create_order_total A (products d) basket (float_zero A) of
          Inl e \<Rightarrow> (d, Inl e)
        | Inr tot \<Rightarrow>
            let db_order = \<lparr>o_id = fresh_id (map o_id (orders d)), o_user_id = user_id,
                            o_order_date = now, o_total = tot\<rparr>
            in (d\<lparr>orders := orders d @ [db_order]\<rparr>, Inr (basket, db_order)))"

definition create_order_finish ::
  "'f db \<Rightarrow> basket_row list \<times> 'f order_row \<Rightarrow> 'f db \<times> (error + 'f order_row)" where
  "create_order_finish d pending =
     (case pending of (basket, db_order) \<Rightarrow>
        (case create_order_items (o_id db_order) basket d of
           Inl e \<Rightarrow> (d, Inl e)
         | Inr d2 \<Rightarrow> (d2, Inr db_order)))"

text \<open>
  Two calls, by users \<open>a\<close> and \<open>b\<close>, whose transactions run one at a time in the
  order: first of \<open>a\<close>, first of \<open>b\<close>, second of \<open>a\<close>, second of \<open>b\<close>. The result
  is the final store and the two answers.
\<close>

definition two_orders_interleaved ::
  "'f arith \<Rightarrow> int \<Rightarrow> int \<Rightarrow> 'f db \<Rightarrow> int \<Rightarrow> int
     \<Rightarrow> 'f db \<times> (error + 'f order_row) \<times> (error + 'f order_row)" where
  "two_orders_interleaved A now_a now_b d user_a user_b =
     (case create_order_begin A now_a d user_a of (d1, first_a) \<Rightarrow>
      case create_order_begin A now_b d1 user_b of (d2, first_b) \<Rightarrow>
      case (case first_a of Inl e \<Rightarrow> (d2, Inl e)
                          | Inr pending \<Rightarrow> create_order_finish d2 pending) of (d3, answer_a) \<Rightarrow>
      case (case first_b of Inl e \<Rightarrow> (d3, Inl e)
                          | Inr pending \<Rightarrow> create_order_finish d3 pending) of (d4, answer_b) \<Rightarrow>
        (d4, answer_a, answer_b))"

subsection \<open>Sequences of order operations\<close>

datatype op = CreateOrder int int | CancelOrder int int

fun apply_op :: "'f arith \<Rightarrow> op \<Rightarrow> 'f db \<Rightarrow> 'f db" where
  "apply_op A (CreateOrder now user_id) d = fst (create_order A now d user_id)"
| "apply_op A (CancelOrder user_id order_id) d = fst (cancel_order d user_id order_id)"

definition run :: "'f arith \<Rightarrow> op list \<Rightarrow> 'f db \<Rightarrow> 'f db" where
  "run A ops d = fold (apply_op A) ops d"

text \<open>The quantity of a product on an order: the sum over the order's items for it.\<close>

definition ordered_qty :: "'f db \<Rightarrow> int \<Rightarrow> int \<Rightarrow> int" where
  "ordered_qty d order_id pid =
     sum_list (map oi_quantity
       (filter (\<lambda>i. oi_order_id i = order_id \<and> oi_product_id i = pid) (order_items d)))"

text \<open>The quantity of a product in a user's basket: the sum over the user's rows for it.\<close>

definition basket_qty :: "'f db \<Rightarrow> int \<Rightarrow> int \<Rightarrow> int" where
  "basket_qty d user_id pid =
     sum_list (map bi_quantity
       (filter (\<lambda>b. bi_user_id b = user_id \<and> bi_product_id b = pid) (basket_items d)))"

text \<open>
  The foreign key of \<open>order_items.order_id\<close>: every order item belongs to an order
  row of the store.
\<close>

definition order_items_reference_orders :: "'f db \<Rightarrow> bool" where
  "order_items_reference_orders d =
     (\<forall>i \<in> set (order_items d). oi_order_id i \<in> set (map o_id (orders d)))"

text \<open>
  Conditions on a store: no stock count is negative; no basket row and no order item
  has a negative quantity; no user has two basket rows for one product.
\<close>

definition stock_nonneg :: "'f db \<Rightarrow> bool" where
  "stock_nonneg d = (\<forall>p \<in> set (products d). 0 \<le> p_stock p)"

definition quantities_nonneg :: "'f db \<Rightarrow> bool" where
  "quantities_nonneg d =
     ((\<forall>b \<in> set (basket_items d). 0 \<le> bi_quantity b)
      \<and> (\<forall>i \<in> set (order_items d). 0 \<le> oi_quantity i))"

definition basket_unique :: "'f db \<Rightarrow> bool" where
  "basket_unique d = distinct (map (\<lambda>b. (bi_user_id b, bi_product_id b)) (basket_items d))"

section \<open>Basket store (main.py)\<close>

definition add_to_basket ::
  "'f db \<Rightarrow> int \<Rightarrow> int \<Rightarrow> int \<Rightarrow> 'f db \<times> (error + basket_row)" where
  "add_to_basket d user_id product_id quantity =
     (case get_product (products d) product_id of
        None \<Rightarrow> (d, Inl (ProductNotFound product_id))
      | Some product \<Rightarrow>
          if p_stock product < quantity then (d, Inl (InsufficientStock product_id))
          else
            case find (\<lambda>b. bi_user_id b = user_id \<and> bi_product_id b = product_id)
                   (basket_items d) of
              Some existing_item \<Rightarrow>
                (d\<lparr>basket_items :=
                     map (\<lambda>b. if bi_id b = bi_id existing_item
                               then b\<lparr>bi_quantity := bi_quantity existing_item + quantity\<rparr>
                               else b) (basket_items d)\<rparr>,
                 Inr (existing_item\<lparr>bi_quantity := bi_quantity existing_item + quantity\<rparr>))
            | None \<Rightarrow>
                (let db_item = \<lparr>bi_id = fresh_id (map bi_id (basket_items d)),
                                bi_user_id = user_id, bi_product_id = product_id,
                                bi_quantity = quantity\<rparr>
                 in (d\<lparr>basket_items := basket_items d @ [db_item]\<rparr>, Inr db_item)))"

section \<open>Identity gateway (auth.py)\<close>

text \<open>
  The external service is a parameter: what \<open>POST /verify-token\<close> answers for a
  token, \<open>None\<close> for a status other than 200 or a body without \<open>user_id\<close>.
\<close>

type_synonym auth_service = "string \<Rightarrow> int option"

definition verify_token :: "auth_service \<Rightarrow> string \<Rightarrow> int option" where
  "verify_token svc token = svc token"

definition get_current_user_id :: "auth_service \<Rightarrow> string \<Rightarrow> error + int" where
  "get_current_user_id svc token =
     (case verify_token svc token of None \<Rightarrow> Inl Unauthenticated | Some user_id \<Rightarrow> Inr user_id)"

text \<open>
  \<open>get_current_user\<close> inserts the placeholder row when the identifier has none. The
  \<open>email\<close> column is declared unique, so the insert fails at commit when a row with the
  placeholder email is already there.
\<close>

definition get_current_user ::
  "auth_service \<Rightarrow> 'f db \<Rightarrow> string \<Rightarrow> 'f db \<times> (error + user_row)" where
  "get_current_user svc d token =
     (case get_current_user_id svc token of
        Inl e \<Rightarrow> (d, Inl e)
      | Inr user_id \<Rightarrow>
          (case find (\<lambda>u. u_id u = user_id) (users d) of
             Some user \<Rightarrow> (d, Inr user)
           | None \<Rightarrow>
               (let user = \<lparr>u_id = user_id, u_name = ''User'', u_email = ''user@example.com''\<rparr>
                in if \<exists>u \<in> set (users d). u_email u = u_email user then (d, Inl InternalError)
                   else (d\<lparr>users := users d @ [user]\<rparr>, Inr user))))"

text \<open>
  An endpoint as main.py declares it, with \<open>get_current_user_id\<close> as its dependency:
  \<open>GET /users/me\<close>.
\<close>

datatype me_response = KnownUser user_row | UnknownUser int string

definition read_users_me ::
  "auth_service \<Rightarrow> 'f db \<Rightarrow> string \<Rightarrow> 'f db \<times> (error + me_response)" where
  "read_users_me svc d token =
     (case get_current_user_id svc token of
        Inl e \<Rightarrow> (d, Inl e)
      | Inr user_id \<Rightarrow>
          (case find (\<lambda>u. u_id u = user_id) (users d) of
             None \<Rightarrow> (d, Inr (UnknownUser user_id ''Unknown User''))
           | Some user \<Rightarrow> (d, Inr (KnownUser user))))"

section \<open>The order total in binary floating point\<close>

text \<open>
  Python's \<open>float\<close> is IEEE 754 binary64: every conversion and every operation
  returns the value with a 53-bit significand nearest to the exact result, ties to the
  even significand. \<open>round_binary64\<close> is that rounding on the rationals;
  \<open>exponent2 x\<close> is the \<open>e\<close> with \<open>2 powi e \<le> \<bar>x\<bar> < 2 powi (e + 1)\<close>. The exponent
  range of binary64 is not modelled: a price of ten digits times a stored integer
  quantity, and sums of such products, stay inside it and never reach the subnormal
  numbers.
\<close>

definition round_half_even :: "rat \<Rightarrow> int" where
  "round_half_even x =
     (let f = \<lfloor>x\<rfloor>; r = x - of_int f
      in if r < 1 / 2 then f else if 1 / 2 < r then f + 1 else if even f then f else f + 1)"

definition exponent2 :: "rat \<Rightarrow> int" where
  "exponent2 x =
     (case quotient_of \<bar>x\<bar> of (a, b) \<Rightarrow>
        (let e = bitlen a - bitlen b in if 2 powi e \<le> \<bar>x\<bar> then e else e - 1))"

definition round_binary64 :: "rat \<Rightarrow> rat" where
  "round_binary64 x =
     (if x = 0 then 0
      else let ulp = 2 powi (exponent2 x - 52) in of_int (round_half_even (x / ulp)) * ulp)"

definition unit_roundoff :: rat where
  "unit_roundoff = 1 / 2 ^ 53"

text \<open>
  The operations of line 337 of main.py, \<open>total += float(product.price) * item.quantity\<close>:
  \<open>float\<close> of the decimal price (given in hundredths), float times integer (the integer
  is converted to a float first), float addition, and the initial \<open>0\<close>.
\<close>

definition binary64 :: "rat arith" where
  "binary64 = \<lparr>to_float = (\<lambda>p. round_binary64 (of_int p / 100)),
               float_mul = (\<lambda>x q. round_binary64 (x * round_binary64 (of_int q))),
               float_add = (\<lambda>x y. round_binary64 (x + y)),
               float_zero = 0\<rparr>"

text \<open>
  The total column keeps two fractional digits: the number of hundredths nearest to a
  float.
\<close>

definition nearest_hundredth :: "rat \<Rightarrow> int" where
  "nearest_hundredth x = \<lfloor>x * 100 + 1 / 2\<rfloor>"

text \<open>
  The total as the specification words it, in hundredths: the exact sum over the basket
  rows of quantity times unit price. \<open>abs_total\<close> sums the magnitudes of the lines.
\<close>

definition unit_price :: "product_row list \<Rightarrow> basket_row \<Rightarrow> int" where
  "unit_price ps b = (case get_product ps (bi_product_id b) of None \<Rightarrow> 0 | Some p \<Rightarrow> p_price p)"

definition exact_total :: "product_row list \<Rightarrow> basket_row list \<Rightarrow> int" where
  "exact_total ps basket = sum_list (map (\<lambda>b. bi_quantity b * unit_price ps b) basket)"

definition abs_total :: "product_row list \<Rightarrow> basket_row list \<Rightarrow> int" where
  "abs_total ps basket = sum_list (map (\<lambda>b. \<bar>bi_quantity b * unit_price ps b\<bar>) basket)"

section \<open>Concrete stores\<close>

text \<open>
  Exact arithmetic on hundredths, to run the handlers on concrete stores; the
  theorems hold for any operations.
\<close>

definition exact :: "int arith" where
  "exact = \<lparr>to_float = (\<lambda>p. p), float_mul = (\<lambda>x q. x * q), float_add = (\<lambda>x y. x + y),
            float_zero = 0\<rparr>"

definition shop :: "int db" where
  "shop = \<lparr>users = [\<lparr>u_id = 1, u_name = ''ana'', u_email = ''ana@example.com''\<rparr>,
                     \<lparr>u_id = 2, u_name = ''dan'', u_email = ''dan@example.com''\<rparr>],
           products = [\<lparr>p_id = 10, p_name = ''pen'', p_description = None,
                        p_price = 1999, p_stock = 5\<rparr>],
           basket_items = [\<lparr>bi_id = 1, bi_user_id = 1, bi_product_id = 10, bi_quantity = 3\<rparr>],
           orders = [],
           order_items = []\<rparr>"

text \<open>The same shop after user 1 has ordered the basket.\<close>

definition shop_ordered :: "int db" where
  "shop_ordered = shop\<lparr>
     products := [\<lparr>p_id = 10, p_name = ''pen'', p_description = None,
                   p_price = 1999, p_stock = 2\<rparr>],
     basket_items := [],
     orders := [\<lparr>o_id = 1, o_user_id = 1, o_order_date = 0, o_total = 5997\<rparr>],
     order_items := [\<lparr>oi_id = 1, oi_order_id = 1, oi_product_id = 10, oi_quantity = 3,
                      oi_price_at_purchase = 1999\<rparr>]\<rparr>"

text \<open>
  A shop whose only product is out of stock, and the same shop after
  \<open>POST /basket/\<close> with quantity \<open>-3\<close> by user 1.
\<close>

definition shop_sold_out :: "int db" where
  "shop_sold_out = shop\<lparr>
     products := [\<lparr>p_id = 10, p_name = ''pen'', p_description = None,
                   p_price = 1999, p_stock = 0\<rparr>],
     basket_items := []\<rparr>"

definition shop_negative :: "int db" where
  "shop_negative = shop_sold_out\<lparr>
     basket_items := [\<lparr>bi_id = 1, bi_user_id = 1, bi_product_id = 10, bi_quantity = - 3\<rparr>]\<rparr>"

text \<open>A shop where user 1 has two basket rows for the last unit of product 10.\<close>

definition shop_duplicate :: "int db" where
  "shop_duplicate = shop\<lparr>
     products := [\<lparr>p_id = 10, p_name = ''pen'', p_description = None,
                   p_price = 1999, p_stock = 1\<rparr>],
     basket_items := [\<lparr>bi_id = 1, bi_user_id = 1, bi_product_id = 10, bi_quantity = 1\<rparr>,
                      \<lparr>bi_id = 2, bi_user_id = 1, bi_product_id = 10, bi_quantity = 1\<rparr>]\<rparr>"

text \<open>An identity service that knows one token, issued to user 7.\<close>

definition idp :: auth_service where
  "idp token = (if token = ''token-7'' then Some 7 else None)"

text \<open>The first commit of user 1's order in \<open>shop\<close>: the order row and nothing else.\<close>

definition shop_order_only :: "int db" where
  "shop_order_only = shop\<lparr>
     orders := [\<lparr>o_id = 1, o_user_id = 1, o_order_date = 0, o_total = 5997\<rparr>]\<rparr>"

text \<open>The pen shop with float totals.\<close>

definition shop_float :: "rat db" where
  "shop_float = \<lparr>users = [\<lparr>u_id = 1, u_name = ''ana'', u_email = ''ana@example.com''\<rparr>],
           products = [\<lparr>p_id = 10, p_name = ''pen'', p_description = None,
                        p_price = 1999, p_stock = 5\<rparr>],
           basket_items = [\<lparr>bi_id = 1, bi_user_id = 1, bi_product_id = 10, bi_quantity = 3\<rparr>],
           orders = [],
           order_items = []\<rparr>"

text \<open>
  A shop with two machines at 12345678.91 each, where user 1's basket holds
  2147483647 of the first and \<open>-2147483646\<close> of the second.
\<close>

definition shop_large :: "rat db" where
  "shop_large = \<lparr>users = [\<lparr>u_id = 1, u_name = ''ana'', u_email = ''ana@example.com''\<rparr>],
     products = [\<lparr>p_id = 10, p_name = ''mill'', p_description = None,
                   p_price = 1234567891, p_stock = 2147483647\<rparr>,
                 \<lparr>p_id = 11, p_name = ''press'', p_description = None,
                   p_price = 1234567891, p_stock = 2147483647\<rparr>],
     basket_items = [\<lparr>bi_id = 1, bi_user_id = 1, bi_product_id = 10, bi_quantity = 2147483647\<rparr>,
                     \<lparr>bi_id = 2, bi_user_id = 1, bi_product_id = 11,
                       bi_quantity = - 2147483646\<rparr>],
     orders = [], order_items = []\<rparr>"

text \<open>A shop with one pen left, which users 1 and 2 both have in their baskets.\<close>

definition shop_last_unit :: "int db" where
  "shop_last_unit = shop\<lparr>
     products := [\<lparr>p_id = 10, p_name = ''pen'', p_description = None,
                   p_price = 1999, p_stock = 1\<rparr>],
     basket_items := [\<lparr>bi_id = 1, bi_user_id = 1, bi_product_id = 10, bi_quantity = 1\<rparr>,
                      \<lparr>bi_id = 2, bi_user_id = 2, bi_product_id = 10, bi_quantity = 1\<rparr>]\<rparr>"

section \<open>Properties\<close>

subsection \<open>Lookups, stock updates and fresh keys\<close>

lemma get_product_Some: "get_product ps pid = Some p \<Longrightarrow> p \<in> set ps \<and> p_id p = pid"
  by (auto simp: get_product_def find_Some_iff)

lemma get_product_set_stock:
  "get_product (set_stock ps pid v) k =
     (if k = pid then map_option (\<lambda>p. p\<lparr>p_stock := v\<rparr>) (get_product ps pid)
      else get_product ps k)"
  by (induction ps) (auto simp: get_product_def set_stock_def)

lemma stock_set_stock:
  "map_option p_stock (get_product (set_stock ps pid v) k) =
     (if k = pid then map_option (\<lambda>_. v) (get_product ps pid)
      else map_option p_stock (get_product ps k))"
  by (simp add: get_product_set_stock option.map_comp comp_def)

lemma fold_max_ge: "(a::int) \<le> fold max xs a \<and> (\<forall>x \<in> set xs. x \<le> fold max xs a)"
proof (induction xs arbitrary: a)
  case Nil
  then show ?case by simp
next
  case (Cons y ys)
  have "max y a \<le> fold max ys (max y a)" and "\<forall>x \<in> set ys. x \<le> fold max ys (max y a)"
    using Cons.IH [of "max y a"] by simp_all
  then show ?case by auto
qed

lemma fresh_id_fresh: "fresh_id ids \<notin> set ids"
proof
  assume "fresh_id ids \<in> set ids"
  then have "fresh_id ids \<le> fold max ids 0" using fold_max_ge [of 0 ids] by blast
  then show False by (simp add: fresh_id_def)
qed

lemma restore_stock_stock:
  "map_option p_stock (get_product (restore_stock items ps) k) =
     map_option (\<lambda>s. s + sum_list (map oi_quantity (filter (\<lambda>i. oi_product_id i = k) items)))
       (map_option p_stock (get_product ps k))"
proof (induction items arbitrary: ps)
  case Nil
  then show ?case by (simp add: option.map_ident)
next
  case (Cons item rest)
  show ?case
  proof (cases "get_product ps (oi_product_id item)")
    case None
    then show ?thesis using Cons.IH [of ps] by (cases "oi_product_id item = k") auto
  next
    case (Some product)
    then show ?thesis
      using Cons.IH [of "set_stock ps (oi_product_id item) (p_stock product + oi_quantity item)"]
      by (cases "oi_product_id item = k") (auto simp: stock_set_stock option.map_comp comp_def)
  qed
qed

lemma cancel_order_found:
  assumes "find (\<lambda>r. o_id r = order_id \<and> o_user_id r = user_id) (orders d) = Some ord"
  shows "cancel_order d user_id order_id =
           (d\<lparr>products := restore_stock (filter (\<lambda>i. oi_order_id i = order_id) (order_items d))
                              (products d)\<rparr>, Inr ord)"
  using assms by (simp add: cancel_order_def)

lemma cancel_order_stock:
  assumes "find (\<lambda>r. o_id r = order_id \<and> o_user_id r = user_id) (orders d) = Some ord"
  shows "stock_of (fst (cancel_order d user_id order_id)) pid =
           map_option (\<lambda>s. s + ordered_qty d order_id pid) (stock_of d pid)"
  by (simp add: cancel_order_found [OF assms] stock_of_def restore_stock_stock ordered_qty_def
        conj_commute)

subsection \<open>The two loops of create\_order\<close>

lemma create_order_total_ok:
  "create_order_total A ps basket tot = Inr t \<Longrightarrow> b \<in> set basket \<Longrightarrow>
     \<exists>p. get_product ps (bi_product_id b) = Some p \<and> bi_quantity b \<le> p_stock p"
proof (induction basket arbitrary: tot)
  case Nil
  then show ?case by simp
next
  case (Cons item rest)
  then show ?case by (auto split: option.splits if_splits)
qed

lemma create_order_items_fixed:
  "create_order_items oid items d = Inr d2 \<Longrightarrow> users d2 = users d \<and> orders d2 = orders d"
proof (induction items arbitrary: d)
  case Nil
  then show ?case by simp
next
  case (Cons item rest)
  then show ?case by (fastforce split: option.splits)
qed

lemma create_order_items_basket:
  "create_order_items oid items d = Inr d2 \<Longrightarrow>
     basket_items d2 = filter (\<lambda>b. bi_id b \<notin> bi_id ` set items) (basket_items d)"
proof (induction items arbitrary: d)
  case Nil
  then show ?case by simp
next
  case (Cons item rest)
  from Cons.prems obtain product where
    p: "get_product (products d) (bi_product_id item) = Some product"
    by (auto split: option.splits)
  let ?d' = "d\<lparr>order_items := order_items d @
                  [\<lparr>oi_id = fresh_id (map oi_id (order_items d)),
                    oi_order_id = oid,
                    oi_product_id = bi_product_id item,
                    oi_quantity = bi_quantity item,
                    oi_price_at_purchase = p_price product\<rparr>],
               products := set_stock (products d) (p_id product)
                             (p_stock product - bi_quantity item),
               basket_items := filter (\<lambda>b. bi_id b \<noteq> bi_id item) (basket_items d)\<rparr>"
  have "create_order_items oid rest ?d' = Inr d2" using Cons.prems p by simp
  from Cons.IH [OF this] show ?case by (auto intro: filter_cong)
qed

lemma create_order_items_stock:
  "create_order_items oid items d = Inr d2 \<Longrightarrow>
     map_option p_stock (get_product (products d2) k) =
       map_option (\<lambda>s. s - sum_list (map bi_quantity (filter (\<lambda>b. bi_product_id b = k) items)))
         (map_option p_stock (get_product (products d) k))"
proof (induction items arbitrary: d)
  case Nil
  then show ?case by (simp add: option.map_ident)
next
  case (Cons item rest)
  from Cons.prems obtain product where
    p: "get_product (products d) (bi_product_id item) = Some product"
    by (auto split: option.splits)
  have pid: "p_id product = bi_product_id item" using get_product_Some [OF p] by simp
  let ?d' = "d\<lparr>order_items := order_items d @
                  [\<lparr>oi_id = fresh_id (map oi_id (order_items d)),
                    oi_order_id = oid,
                    oi_product_id = bi_product_id item,
                    oi_quantity = bi_quantity item,
                    oi_price_at_purchase = p_price product\<rparr>],
               products := set_stock (products d) (p_id product)
                             (p_stock product - bi_quantity item),
               basket_items := filter (\<lambda>b. bi_id b \<noteq> bi_id item) (basket_items d)\<rparr>"
  have "create_order_items oid rest ?d' = Inr d2" using Cons.prems p by simp
  from Cons.IH [OF this] show ?case
    using p pid by (cases "bi_product_id item = k") (auto simp: stock_set_stock)
qed

lemma create_order_items_ordered:
  "create_order_items oid items d = Inr d2 \<Longrightarrow>
     ordered_qty d2 oid k =
       ordered_qty d oid k + sum_list (map bi_quantity (filter (\<lambda>b. bi_product_id b = k) items))"
proof (induction items arbitrary: d)
  case Nil
  then show ?case by (simp add: ordered_qty_def)
next
  case (Cons item rest)
  from Cons.prems obtain product where
    p: "get_product (products d) (bi_product_id item) = Some product"
    by (auto split: option.splits)
  let ?d' = "d\<lparr>order_items := order_items d @
                  [\<lparr>oi_id = fresh_id (map oi_id (order_items d)),
                    oi_order_id = oid,
                    oi_product_id = bi_product_id item,
                    oi_quantity = bi_quantity item,
                    oi_price_at_purchase = p_price product\<rparr>],
               products := set_stock (products d) (p_id product)
                             (p_stock product - bi_quantity item),
               basket_items := filter (\<lambda>b. bi_id b \<noteq> bi_id item) (basket_items d)\<rparr>"
  have "create_order_items oid rest ?d' = Inr d2" using Cons.prems p by simp
  from Cons.IH [OF this] show ?case
    by (cases "bi_product_id item = k") (auto simp: ordered_qty_def)
qed


lemma find_append_None: "find P xs = None \<Longrightarrow> find P (xs @ ys) = find P ys"
  by (induction xs) (auto split: if_splits)

lemma create_order_success:
  assumes "create_order A now d user_id = (d1, Inr ord)"
  shows "o_id ord = fresh_id (map o_id (orders d)) \<and> o_user_id ord = user_id
         \<and> create_order_total A (products d)
               (filter (\<lambda>b. bi_user_id b = user_id) (basket_items d)) (float_zero A)
             = Inr (o_total ord)
         \<and> create_order_items (o_id ord) (filter (\<lambda>b. bi_user_id b = user_id) (basket_items d))
               (d\<lparr>orders := orders d @ [ord]\<rparr>) = Inr d1"
  using assms
  by (auto simp: create_order_def create_order_commits_def Let_def
           split: if_splits sum.splits)

subsection \<open>Cancelling an order that is absent or not owned\<close>

text \<open>
  Claim C8. When no order row has both the requested identifier and the requesting
  user as owner (the order does not exist, or belongs to someone else),
  \<open>cancel_order\<close> answers with the not-found error, status 404, and returns the store
  exactly as it was: no stock count and no other row changes.
\<close>

theorem cancel_order_not_found:
  assumes "\<not> (\<exists>r \<in> set (orders d). o_id r = order_id \<and> o_user_id r = user_id)"
  shows "cancel_order d user_id order_id = (d, Inl OrderNotFound)
         \<and> status_code OrderNotFound = 404"
proof -
  have "find (\<lambda>r. o_id r = order_id \<and> o_user_id r = user_id) (orders d) = None"
    using assms by (simp add: find_None_iff)
  then show ?thesis by (simp add: cancel_order_def)
qed

theorem cancel_order_not_found_witness:
  "\<not> (\<exists>r \<in> set (orders shop_ordered). o_id r = 1 \<and> o_user_id r = 2)
   \<and> cancel_order shop_ordered 2 1 = (shop_ordered, Inl OrderNotFound)
   \<and> status_code OrderNotFound = 404"
proof -
  have h: "\<not> (\<exists>r \<in> set (orders shop_ordered). o_id r = 1 \<and> o_user_id r = 2)"
    by (simp add: shop_ordered_def shop_def)
  from cancel_order_not_found [OF h] h show ?thesis by simp
qed

subsection \<open>Cancelling twice\<close>

text \<open>
  Claim C6. \<open>cancel_order\<close> is not idempotent. An order row has no status and
  cancelling neither deletes nor marks it, so after a successful cancel a second cancel
  of the same order by the same user succeeds again with the same order row, and adds
  every item's quantity to the stock once more: after the first cancel each existing
  product's stock is its old value plus the quantity on the order, after the second
  its old value plus twice that quantity.
\<close>

theorem cancel_order_twice:
  assumes "cancel_order d user_id order_id = (d1, Inr ord)"
  shows "\<exists>d2. cancel_order d1 user_id order_id = (d2, Inr ord)
           \<and> (\<forall>pid. stock_of d1 pid =
                        map_option (\<lambda>s. s + ordered_qty d order_id pid) (stock_of d pid)
                    \<and> stock_of d2 pid =
                        map_option (\<lambda>s. s + 2 * ordered_qty d order_id pid) (stock_of d pid))"
proof -
  have found: "find (\<lambda>r. o_id r = order_id \<and> o_user_id r = user_id) (orders d) = Some ord"
    using assms by (auto simp: cancel_order_def split: option.splits)
  have d1: "d1 = fst (cancel_order d user_id order_id)" using assms by simp
  have same: "orders d1 = orders d" "order_items d1 = order_items d"
    using assms by (auto simp: cancel_order_found [OF found])
  have found1: "find (\<lambda>r. o_id r = order_id \<and> o_user_id r = user_id) (orders d1) = Some ord"
    using found same by simp
  have q1: "ordered_qty d1 order_id pid = ordered_qty d order_id pid" for pid
    by (simp add: ordered_qty_def same)
  have s1: "stock_of d1 pid = map_option (\<lambda>s. s + ordered_qty d order_id pid) (stock_of d pid)"
    for pid
    unfolding d1 by (rule cancel_order_stock [OF found])
  have s2: "stock_of (fst (cancel_order d1 user_id order_id)) pid =
              map_option (\<lambda>s. s + 2 * ordered_qty d order_id pid) (stock_of d pid)" for pid
    by (cases "stock_of d pid") (simp_all add: cancel_order_stock [OF found1] q1 s1)
  have "cancel_order d1 user_id order_id = (fst (cancel_order d1 user_id order_id), Inr ord)"
    by (simp add: cancel_order_found [OF found1])
  with s1 s2 show ?thesis by metis
qed

theorem cancel_order_twice_witness:
  "cancel_order shop_ordered 1 1 = (shop_ordered\<lparr>products := [\<lparr>p_id = 10, p_name = ''pen'',
       p_description = None, p_price = 1999, p_stock = 5\<rparr>]\<rparr>,
       Inr \<lparr>o_id = 1, o_user_id = 1, o_order_date = 0, o_total = 5997\<rparr>)
   \<and> (\<exists>d2. cancel_order (shop_ordered\<lparr>products := [\<lparr>p_id = 10, p_name = ''pen'',
                p_description = None, p_price = 1999, p_stock = 5\<rparr>]\<rparr>) 1 1
              = (d2, Inr \<lparr>o_id = 1, o_user_id = 1, o_order_date = 0, o_total = 5997\<rparr>)
          \<and> stock_of shop_ordered 10 = Some 2 \<and> stock_of d2 10 = Some 8)"
proof -
  have h: "cancel_order shop_ordered 1 1 = (shop_ordered\<lparr>products := [\<lparr>p_id = 10,
       p_name = ''pen'', p_description = None, p_price = 1999, p_stock = 5\<rparr>]\<rparr>,
       Inr \<lparr>o_id = 1, o_user_id = 1, o_order_date = 0, o_total = 5997\<rparr>)"
    by (simp add: cancel_order_def shop_ordered_def shop_def get_product_def set_stock_def)
  have q: "ordered_qty shop_ordered 1 10 = 3" "stock_of shop_ordered 10 = Some 2"
    by (simp_all add: ordered_qty_def stock_of_def get_product_def shop_ordered_def shop_def)
  show ?thesis
    using cancel_order_twice [OF h] h q by auto
qed

subsection \<open>Ordering from an empty basket\<close>

text \<open>
  Claim C7. When the user has no basket row, \<open>create_order\<close> fails with the
  empty-basket error, status 400, commits nothing, and returns the store exactly as it
  was: users, products, basket rows, orders and order items are unchanged.
\<close>

theorem create_order_empty_basket:
  assumes "filter (\<lambda>b. bi_user_id b = user_id) (basket_items d) = []"
  shows "create_order A now d user_id = (d, Inl EmptyBasket)
         \<and> create_order_commits A now d user_id = ([], Inl EmptyBasket)
         \<and> status_code EmptyBasket = 400"
  using assms by (simp add: create_order_def create_order_commits_def)

theorem create_order_empty_basket_witness:
  "filter (\<lambda>b. bi_user_id b = 2) (basket_items shop) = []
   \<and> create_order exact 0 shop 2 = (shop, Inl EmptyBasket)
   \<and> create_order_commits exact 0 shop 2 = ([], Inl EmptyBasket)"
proof -
  have h: "filter (\<lambda>b. bi_user_id b = 2) (basket_items shop) = []"
    by (simp add: shop_def)
  from create_order_empty_basket [OF h, of exact 0] h show ?thesis by simp
qed

subsection \<open>Create, then cancel\<close>

text \<open>
  Claim C5. On a store whose order items all belong to order rows (the foreign key of
  models.py), a successful \<open>create_order\<close> followed at once by \<open>cancel_order\<close> of the
  order it returned, by the same user: the cancel succeeds and returns that order;
  after the create, each product's stock is its stock before minus the quantity of
  that product in the user's basket before the create, which is also the quantity of
  that product on the new order; after the cancel, each product's stock is again what
  it was before the create. (No handler deletes a product, so every product of the
  order still exists at the cancel.)
\<close>

theorem create_then_cancel_restores_stock:
  assumes fk: "order_items_reference_orders d"
    and created: "create_order A now d user_id = (d1, Inr ord)"
  shows "\<exists>d2. cancel_order d1 user_id (o_id ord) = (d2, Inr ord)
           \<and> (\<forall>pid. stock_of d1 pid =
                        map_option (\<lambda>s. s - basket_qty d user_id pid) (stock_of d pid)
                    \<and> ordered_qty d1 (o_id ord) pid = basket_qty d user_id pid
                    \<and> stock_of d2 pid = stock_of d pid)"
proof -
  let ?basket = "filter (\<lambda>b. bi_user_id b = user_id) (basket_items d)"
  let ?d0 = "d\<lparr>orders := orders d @ [ord]\<rparr>"
  note shape = create_order_success [OF created]
  have oid: "o_id ord = fresh_id (map o_id (orders d))" using shape by blast
  have owner: "o_user_id ord = user_id" using shape by blast
  have items: "create_order_items (o_id ord) ?basket ?d0 = Inr d1" using shape by blast
  have new: "o_id ord \<notin> set (map o_id (orders d))"
    unfolding oid by (rule fresh_id_fresh)
  have new': "o_id r \<noteq> o_id ord" if "r \<in> set (orders d)" for r
    using new that by (metis image_eqI set_map)
  have none: "ordered_qty ?d0 (o_id ord) pid = 0" for pid
  proof -
    have "oi_order_id i \<noteq> o_id ord" if "i \<in> set (order_items d)" for i
    proof
      assume "oi_order_id i = o_id ord"
      moreover have "oi_order_id i \<in> set (map o_id (orders d))"
        using fk that unfolding order_items_reference_orders_def by blast
      ultimately show False using new by simp
    qed
    then have "filter (\<lambda>i. oi_order_id i = o_id ord \<and> oi_product_id i = pid) (order_items d) = []"
      by (simp add: filter_empty_conv)
    then show ?thesis by (simp add: ordered_qty_def)
  qed
  have q: "ordered_qty d1 (o_id ord) pid = basket_qty d user_id pid" for pid
    using create_order_items_ordered [OF items, of pid] none [of pid]
    by (simp add: basket_qty_def)
  have s1: "stock_of d1 pid = map_option (\<lambda>s. s - basket_qty d user_id pid) (stock_of d pid)"
    for pid
    using create_order_items_stock [OF items, of pid]
    by (simp add: stock_of_def basket_qty_def)
  have "orders d1 = orders d @ [ord]"
    using create_order_items_fixed [OF items] by simp
  moreover have "find (\<lambda>r. o_id r = o_id ord \<and> o_user_id r = user_id) (orders d) = None"
    unfolding find_None_iff using new' by blast
  ultimately have found:
    "find (\<lambda>r. o_id r = o_id ord \<and> o_user_id r = user_id) (orders d1) = Some ord"
    using owner by (simp add: find_append_None)
  have s2: "stock_of (fst (cancel_order d1 user_id (o_id ord))) pid = stock_of d pid" for pid
    by (cases "stock_of d pid") (simp_all add: cancel_order_stock [OF found] s1 q)
  have "cancel_order d1 user_id (o_id ord) = (fst (cancel_order d1 user_id (o_id ord)), Inr ord)"
    by (simp add: cancel_order_found [OF found])
  with s1 s2 q show ?thesis by metis
qed

theorem create_then_cancel_restores_stock_witness:
  "order_items_reference_orders shop
   \<and> create_order exact 0 shop 1 =
       (shop_ordered, Inr \<lparr>o_id = 1, o_user_id = 1, o_order_date = 0, o_total = 5997\<rparr>)
   \<and> (\<exists>d2. cancel_order shop_ordered 1 1 =
              (d2, Inr \<lparr>o_id = 1, o_user_id = 1, o_order_date = 0, o_total = 5997\<rparr>)
          \<and> basket_qty shop 1 10 = 3 \<and> ordered_qty shop_ordered 1 10 = 3
          \<and> stock_of shop 10 = Some 5 \<and> stock_of shop_ordered 10 = Some 2
          \<and> stock_of d2 10 = Some 5)"
proof -
  have fk: "order_items_reference_orders shop"
    by (simp add: order_items_reference_orders_def shop_def)
  have c: "create_order exact 0 shop 1 =
       (shop_ordered, Inr \<lparr>o_id = 1, o_user_id = 1, o_order_date = 0, o_total = 5997\<rparr>)"
    by (simp add: create_order_def create_order_commits_def shop_def shop_ordered_def exact_def
          get_product_def set_stock_def fresh_id_def Let_def)
  have s: "stock_of shop 10 = Some 5" "stock_of shop_ordered 10 = Some 2"
    "basket_qty shop 1 10 = 3" "ordered_qty shop_ordered 1 10 = 3"
    by (simp_all add: stock_of_def get_product_def basket_qty_def ordered_qty_def shop_def
          shop_ordered_def)
  show ?thesis
    using create_then_cancel_restores_stock [OF fk c] fk c s by auto
qed

subsection \<open>Stock under sequences of create and cancel\<close>

lemma set_stock_nonneg:
  "\<forall>p \<in> set ps. 0 \<le> p_stock p \<Longrightarrow> 0 \<le> v \<Longrightarrow> \<forall>p \<in> set (set_stock ps pid v). 0 \<le> p_stock p"
  by (auto simp: set_stock_def)

lemma restore_stock_nonneg:
  "\<forall>p \<in> set ps. 0 \<le> p_stock p \<Longrightarrow> \<forall>i \<in> set items. 0 \<le> oi_quantity i \<Longrightarrow>
     \<forall>p \<in> set (restore_stock items ps). 0 \<le> p_stock p"
proof (induction items arbitrary: ps)
  case Nil
  then show ?case by simp
next
  case (Cons item rest)
  show ?case
  proof (cases "get_product ps (oi_product_id item)")
    case None
    then show ?thesis using Cons by simp
  next
    case (Some product)
    then have "0 \<le> p_stock product" using Cons.prems(1) get_product_Some by blast
    then have "0 \<le> p_stock product + oi_quantity item" using Cons.prems(2) by simp
    then have "\<forall>p \<in> set (set_stock ps (oi_product_id item) (p_stock product + oi_quantity item)).
                 0 \<le> p_stock p"
      using Cons.prems(1) by (rule set_stock_nonneg [rotated])
    then show ?thesis using Cons.IH Cons.prems(2) Some by simp
  qed
qed

lemma create_order_items_new_items:
  "create_order_items oid items d = Inr d2 \<Longrightarrow> i \<in> set (order_items d2) \<Longrightarrow>
     i \<in> set (order_items d)
     \<or> (oi_order_id i = oid \<and> (\<exists>b \<in> set items. oi_quantity i = bi_quantity b))"
proof (induction items arbitrary: d)
  case Nil
  then show ?case by simp
next
  case (Cons item rest)
  from Cons.prems obtain product where
    p: "get_product (products d) (bi_product_id item) = Some product"
    by (auto split: option.splits)
  let ?d' = "d\<lparr>order_items := order_items d @
                  [\<lparr>oi_id = fresh_id (map oi_id (order_items d)),
                    oi_order_id = oid,
                    oi_product_id = bi_product_id item,
                    oi_quantity = bi_quantity item,
                    oi_price_at_purchase = p_price product\<rparr>],
               products := set_stock (products d) (p_id product)
                             (p_stock product - bi_quantity item),
               basket_items := filter (\<lambda>b. bi_id b \<noteq> bi_id item) (basket_items d)\<rparr>"
  have "create_order_items oid rest ?d' = Inr d2" using Cons.prems p by simp
  from Cons.IH [OF this Cons.prems(2)] show ?case by auto
qed

lemma create_order_items_stock_nonneg:
  "create_order_items oid items d = Inr d2 \<Longrightarrow>
   \<forall>p \<in> set (products d). 0 \<le> p_stock p \<Longrightarrow>
   distinct (map bi_product_id items) \<Longrightarrow>
   \<forall>b \<in> set items. \<exists>p. get_product (products d) (bi_product_id b) = Some p
                           \<and> bi_quantity b \<le> p_stock p \<Longrightarrow>
   \<forall>p \<in> set (products d2). 0 \<le> p_stock p"
proof (induction items arbitrary: d)
  case Nil
  then show ?case by simp
next
  case (Cons item rest)
  from Cons.prems(1) obtain product where
    p: "get_product (products d) (bi_product_id item) = Some product"
    by (auto split: option.splits)
  have pid: "p_id product = bi_product_id item" using get_product_Some [OF p] by simp
  have enough: "bi_quantity item \<le> p_stock product" using Cons.prems(4) p by auto
  let ?ps' = "set_stock (products d) (p_id product) (p_stock product - bi_quantity item)"
  let ?d' = "d\<lparr>order_items := order_items d @
                  [\<lparr>oi_id = fresh_id (map oi_id (order_items d)),
                    oi_order_id = oid,
                    oi_product_id = bi_product_id item,
                    oi_quantity = bi_quantity item,
                    oi_price_at_purchase = p_price product\<rparr>],
               products := ?ps',
               basket_items := filter (\<lambda>b. bi_id b \<noteq> bi_id item) (basket_items d)\<rparr>"
  have step: "create_order_items oid rest ?d' = Inr d2" using Cons.prems(1) p by simp
  have nonneg: "\<forall>p \<in> set (products ?d'). 0 \<le> p_stock p"
    using set_stock_nonneg [OF Cons.prems(2), of "p_stock product - bi_quantity item"] enough
    by simp
  have dist: "distinct (map bi_product_id rest)" using Cons.prems(3) by simp
  have rest_ok: "\<forall>b \<in> set rest. \<exists>q. get_product (products ?d') (bi_product_id b) = Some q
                                        \<and> bi_quantity b \<le> p_stock q"
  proof
    fix b assume b: "b \<in> set rest"
    then have "bi_product_id b \<noteq> bi_product_id item"
      using Cons.prems(3) by (auto simp: image_iff)
    then have "get_product ?ps' (bi_product_id b) = get_product (products d) (bi_product_id b)"
      by (simp add: get_product_set_stock pid)
    then show "\<exists>q. get_product (products ?d') (bi_product_id b) = Some q
                    \<and> bi_quantity b \<le> p_stock q"
      using Cons.prems(4) b by simp
  qed
  from Cons.IH [OF step nonneg dist rest_ok] show ?case .
qed

lemma basket_distinct_products:
  "distinct (map (\<lambda>b. (bi_user_id b, bi_product_id b)) xs) \<Longrightarrow>
     distinct (map bi_product_id (filter (\<lambda>b. bi_user_id b = u) xs))"
  by (induction xs) (auto simp: image_iff)


lemma create_order_cases:
  "fst (create_order A now d u) = d
   \<or> (\<exists>os. fst (create_order A now d u) = d\<lparr>orders := os\<rparr>)
   \<or> (\<exists>ord. create_order A now d u = (fst (create_order A now d u), Inr ord))"
  by (auto simp: create_order_def create_order_commits_def Let_def split: sum.splits)

lemma create_order_preserves:
  assumes s: "stock_nonneg d" and q: "quantities_nonneg d" and u: "basket_unique d"
  shows "stock_nonneg (fst (create_order A now d user_id))
         \<and> quantities_nonneg (fst (create_order A now d user_id))
         \<and> basket_unique (fst (create_order A now d user_id))"
proof -
  let ?r = "fst (create_order A now d user_id)"
  let ?basket = "filter (\<lambda>b. bi_user_id b = user_id) (basket_items d)"
  from create_order_cases [of A now d user_id]
  consider (same) "?r = d" | (order_only) os where "?r = d\<lparr>orders := os\<rparr>"
    | (created) ord where "create_order A now d user_id = (?r, Inr ord)"
    by blast
  then show ?thesis
  proof cases
    case same
    then show ?thesis using s q u by simp
  next
    case order_only
    then show ?thesis
      using s q u by (simp add: stock_nonneg_def quantities_nonneg_def basket_unique_def)
  next
    case created
    let ?d0 = "d\<lparr>orders := orders d @ [ord]\<rparr>"
    note shape = create_order_success [OF created]
    have tot: "create_order_total A (products d) ?basket (float_zero A) = Inr (o_total ord)"
      using shape by blast
    have items: "create_order_items (o_id ord) ?basket ?d0 = Inr ?r" using shape by blast
    have enough: "\<forall>b \<in> set ?basket. \<exists>p. get_product (products ?d0) (bi_product_id b) = Some p
                                           \<and> bi_quantity b \<le> p_stock p"
      using create_order_total_ok [OF tot] by simp
    have "distinct (map bi_product_id ?basket)"
      using u unfolding basket_unique_def by (rule basket_distinct_products)
    with items enough s have stock: "stock_nonneg ?r"
      unfolding stock_nonneg_def
      using create_order_items_stock_nonneg [of "o_id ord" ?basket ?d0 ?r] by simp
    have basket: "basket_items ?r =
                    filter (\<lambda>b. bi_id b \<notin> bi_id ` set ?basket) (basket_items d)"
      using create_order_items_basket [OF items] by simp
    have "0 \<le> oi_quantity i" if "i \<in> set (order_items ?r)" for i
    proof -
      from create_order_items_new_items [OF items that]
      have "i \<in> set (order_items d) \<or> (\<exists>b \<in> set (basket_items d). oi_quantity i = bi_quantity b)"
        by auto
      then show ?thesis using q unfolding quantities_nonneg_def by metis
    qed
    then have quant: "quantities_nonneg ?r"
      using q basket by (simp add: quantities_nonneg_def)
    have uniq: "basket_unique ?r"
      using u basket by (simp add: basket_unique_def distinct_map_filter)
    from stock quant uniq show ?thesis by simp
  qed
qed

lemma cancel_order_preserves:
  assumes s: "stock_nonneg d" and q: "quantities_nonneg d" and u: "basket_unique d"
  shows "stock_nonneg (fst (cancel_order d user_id order_id))
         \<and> quantities_nonneg (fst (cancel_order d user_id order_id))
         \<and> basket_unique (fst (cancel_order d user_id order_id))"
proof (cases "find (\<lambda>r. o_id r = order_id \<and> o_user_id r = user_id) (orders d)")
  case None
  then show ?thesis using s q u by (simp add: cancel_order_def)
next
  case (Some ord)
  have "\<forall>p \<in> set (restore_stock (filter (\<lambda>i. oi_order_id i = order_id) (order_items d))
                     (products d)). 0 \<le> p_stock p"
    using s q by (intro restore_stock_nonneg) (auto simp: stock_nonneg_def quantities_nonneg_def)
  then show ?thesis
    using q u
    by (simp add: cancel_order_found [OF Some] stock_nonneg_def quantities_nonneg_def
          basket_unique_def)
qed

lemma run_preserves:
  "stock_nonneg d \<Longrightarrow> quantities_nonneg d \<Longrightarrow> basket_unique d \<Longrightarrow>
     stock_nonneg (run A ops d) \<and> quantities_nonneg (run A ops d) \<and> basket_unique (run A ops d)"
proof (induction ops arbitrary: d)
  case Nil
  then show ?case by (simp add: run_def)
next
  case (Cons op ops)
  have "stock_nonneg (apply_op A op d) \<and> quantities_nonneg (apply_op A op d)
        \<and> basket_unique (apply_op A op d)"
    using Cons.prems
    by (cases op) (simp_all add: create_order_preserves cancel_order_preserves)
  then show ?case using Cons.IH [of "apply_op A op d"] by (simp add: run_def)
qed

text \<open>
  Claim C3 as stated (non-negative stock is preserved from every store with
  non-negative stock) fails. In \<open>shop_negative\<close> every stock count
  is non-negative and user 1 holds a basket row of quantity \<open>-3\<close>. Ordering it raises
  the stock from 0 to 3, cancelling the order brings it back to 0, and cancelling the
  order again leaves \<open>-3\<close>.
\<close>

theorem stock_never_negative_counterexample:
  "stock_nonneg shop_negative
   \<and> \<not> stock_nonneg (run exact [CreateOrder 0 1, CancelOrder 1 1, CancelOrder 1 1] shop_negative)"
  by (simp add: stock_nonneg_def run_def create_order_def create_order_commits_def
        cancel_order_def shop_negative_def shop_sold_out_def shop_def exact_def
        get_product_def set_stock_def fresh_id_def Let_def)

text \<open>
  That store is what \<open>add_to_basket\<close> returns for quantity \<open>-3\<close> on the sold-out
  shop: no handler rejects a quantity below one.
\<close>

lemma negative_basket_reachable:
  "fst (add_to_basket shop_sold_out 1 10 (- 3)) = shop_negative"
  by (simp add: add_to_basket_def shop_negative_def shop_sold_out_def shop_def
        get_product_def fresh_id_def Let_def)

text \<open>
  With positive quantities, two basket rows of one user for the same product pass the
  stock check one by one and are then both subtracted.
\<close>

lemma duplicate_rows_overdraw:
  "stock_nonneg shop_duplicate \<and> quantities_nonneg shop_duplicate
   \<and> stock_of (run exact [CreateOrder 0 1] shop_duplicate) 10 = Some (- 1)"
  by (simp add: stock_nonneg_def quantities_nonneg_def stock_of_def run_def create_order_def
        create_order_commits_def shop_duplicate_def shop_def exact_def
        get_product_def set_stock_def fresh_id_def Let_def)

text \<open>
  Claim C3, amended. For every store in which all stock counts are non-negative, no
  basket row and no order item has a negative quantity, and no user has two basket
  rows for the same product: after any finite sequence of \<open>create_order\<close> and
  \<open>cancel_order\<close> calls, by any users and on any orders, every stock count is still
  non-negative.
\<close>

theorem stock_never_negative:
  assumes "stock_nonneg d" and "quantities_nonneg d" and "basket_unique d"
  shows "stock_nonneg (run A ops d)"
  using run_preserves [OF assms] by simp

theorem stock_never_negative_witness:
  "stock_nonneg shop \<and> quantities_nonneg shop \<and> basket_unique shop
   \<and> stock_nonneg (run exact [CreateOrder 0 1, CancelOrder 1 1, CancelOrder 1 1] shop)
   \<and> stock_of (run exact [CreateOrder 0 1, CancelOrder 1 1, CancelOrder 1 1] shop) 10 = Some 8"
proof -
  have h: "stock_nonneg shop" "quantities_nonneg shop" "basket_unique shop"
    by (simp_all add: stock_nonneg_def quantities_nonneg_def basket_unique_def shop_def)
  have v: "stock_of (run exact [CreateOrder 0 1, CancelOrder 1 1, CancelOrder 1 1] shop) 10
             = Some 8"
    by (simp add: stock_of_def run_def create_order_def create_order_commits_def
          cancel_order_def shop_def exact_def get_product_def set_stock_def fresh_id_def Let_def)
  from stock_never_negative [OF h, of exact "[CreateOrder 0 1, CancelOrder 1 1, CancelOrder 1 1]"]
    h v show ?thesis by simp
qed

subsection \<open>The commits of create\_order\<close>

text \<open>
  Once the first loop has accepted the basket, the second loop cannot raise, so the
  handler either commits nothing and answers with an error of the first loop, or
  commits twice: first the store with the order row appended and nothing else changed,
  then the store with the order items, the lowered stock and the drained basket.
\<close>

lemma get_product_set_stock_None:
  "get_product (set_stock ps pid v) k = None \<longleftrightarrow> get_product ps k = None"
  by (simp add: get_product_set_stock)

lemma create_order_items_succeeds:
  "\<forall>b \<in> set items. get_product (products d) (bi_product_id b) \<noteq> None \<Longrightarrow>
     \<exists>d2. create_order_items oid items d = Inr d2"
proof (induction items arbitrary: d)
  case Nil
  then show ?case by simp
next
  case (Cons item rest)
  then obtain product where
    p: "get_product (products d) (bi_product_id item) = Some product" by auto
  let ?d' = "d\<lparr>order_items := order_items d @
                  [\<lparr>oi_id = fresh_id (map oi_id (order_items d)),
                    oi_order_id = oid,
                    oi_product_id = bi_product_id item,
                    oi_quantity = bi_quantity item,
                    oi_price_at_purchase = p_price product\<rparr>],
               products := set_stock (products d) (p_id product)
                             (p_stock product - bi_quantity item),
               basket_items := filter (\<lambda>b. bi_id b \<noteq> bi_id item) (basket_items d)\<rparr>"
  have "\<forall>b \<in> set rest. get_product (products ?d') (bi_product_id b) \<noteq> None"
    using Cons.prems by (simp add: get_product_set_stock_None)
  from Cons.IH [OF this] show ?case using p by simp
qed

lemma create_order_commits_shape:
  "create_order_commits A now d user_id = ([], Inl EmptyBasket)
   \<or> (\<exists>e. create_order_commits A now d user_id = ([], Inl e)
           \<and> create_order_total A (products d)
                (filter (\<lambda>b. bi_user_id b = user_id) (basket_items d)) (float_zero A) = Inl e)
   \<or> (\<exists>ord d2. create_order_commits A now d user_id =
                   ([d\<lparr>orders := orders d @ [ord]\<rparr>, d2], Inr ord)
           \<and> create_order_items (o_id ord)
                (filter (\<lambda>b. bi_user_id b = user_id) (basket_items d))
                (d\<lparr>orders := orders d @ [ord]\<rparr>) = Inr d2)"
proof -
  let ?basket = "filter (\<lambda>b. bi_user_id b = user_id) (basket_items d)"
  show ?thesis
  proof (cases "?basket = []")
    case True
    then show ?thesis by (simp add: create_order_commits_def)
  next
    case False
    show ?thesis
    proof (cases "create_order_total A (products d) ?basket (float_zero A)")
      case (Inl e)
      then have "create_order_commits A now d user_id = ([], Inl e)"
        using False by (simp add: create_order_commits_def Let_def)
      with Inl show ?thesis by blast
    next
      case (Inr tot)
      let ?ord = "\<lparr>o_id = fresh_id (map o_id (orders d)), o_user_id = user_id,
                    o_order_date = now, o_total = tot\<rparr>"
      let ?d1 = "d\<lparr>orders := orders d @ [?ord]\<rparr>"
      have "\<forall>b \<in> set ?basket. get_product (products ?d1) (bi_product_id b) \<noteq> None"
        using create_order_total_ok [OF Inr] by fastforce
      from create_order_items_succeeds [OF this, of "o_id ?ord"] obtain d2 where
        items: "create_order_items (o_id ?ord) ?basket ?d1 = Inr d2" ..
      then have "create_order_commits A now d user_id = ([?d1, d2], Inr ?ord)"
        using False Inr by (simp add: create_order_commits_def Let_def)
      with items show ?thesis by blast
    qed
  qed
qed

text \<open>
  Claim C1 says that \<open>create_order\<close> persists the order row, its order items, the
  stock decrements and the basket deletions together or not at all, so that no order
  row without items is ever left visible. The handler calls \<open>db.commit()\<close> right
  after adding the order row: for user 1 in \<open>shop\<close> the first store it makes durable
  holds the order row with total 59.97 and no order item, the stock of product 10
  still at 5 and the basket row still there; the items, the stock decrement and the
  basket deletion become durable only with the second commit.
\<close>

theorem create_order_commits_order_row_first:
  "create_order_commits exact 0 shop 1 =
     ([shop_order_only, shop_ordered],
      Inr \<lparr>o_id = 1, o_user_id = 1, o_order_date = 0, o_total = 5997\<rparr>)
   \<and> orders shop_order_only = [\<lparr>o_id = 1, o_user_id = 1, o_order_date = 0, o_total = 5997\<rparr>]
   \<and> order_items shop_order_only = []
   \<and> stock_of shop_order_only 10 = stock_of shop 10
   \<and> basket_items shop_order_only = basket_items shop
   \<and> basket_items shop \<noteq> []"
  by (simp add: create_order_commits_def shop_order_only_def shop_ordered_def shop_def exact_def
        stock_of_def get_product_def set_stock_def fresh_id_def Let_def)

subsection \<open>Adding to a basket row that exists\<close>

text \<open>
  Claim C4 says that adding to a basket row that already exists sums the quantities
  and fails with insufficient stock exactly when the existing plus the added quantity
  exceeds the stock. The handler sums the quantities, but it compares the stock with
  the added quantity alone, before it looks for the existing row: with 5 in stock and
  3 in the basket, adding 3 succeeds and leaves a row of 6.
\<close>

theorem add_to_basket_merge_exceeds_stock:
  "stock_of shop 10 = Some 5
   \<and> find (\<lambda>b. bi_user_id b = 1 \<and> bi_product_id b = 10) (basket_items shop) =
       Some \<lparr>bi_id = 1, bi_user_id = 1, bi_product_id = 10, bi_quantity = 3\<rparr>
   \<and> add_to_basket shop 1 10 3 =
       (shop\<lparr>basket_items :=
               [\<lparr>bi_id = 1, bi_user_id = 1, bi_product_id = 10, bi_quantity = 6\<rparr>]\<rparr>,
        Inr \<lparr>bi_id = 1, bi_user_id = 1, bi_product_id = 10, bi_quantity = 6\<rparr>)"
  by (simp add: add_to_basket_def stock_of_def get_product_def shop_def)

text \<open>For an existing product the stock check depends on the added quantity only.\<close>

lemma add_to_basket_checks_new_quantity_only:
  assumes "get_product (products d) product_id = Some product"
  shows "(snd (add_to_basket d user_id product_id quantity) = Inl (InsufficientStock product_id))
           = (p_stock product < quantity)"
  using assms by (auto simp: add_to_basket_def Let_def split: option.splits)

subsection \<open>Local shadow users\<close>

text \<open>
  Claim C9 as stated (after any authenticated operation the user has a local row)
  fails. Every endpoint of main.py authenticates through \<open>get_current_user_id\<close>, which has
  no access to the store. A request with a valid token of user 7, who has no local
  row, succeeds and leaves the user table without a row for 7.
\<close>

theorem shadow_user_counterexample:
  "get_current_user_id idp ''token-7'' = Inr 7
   \<and> find (\<lambda>u. u_id u = 7) (users shop) = None
   \<and> read_users_me idp shop ''token-7'' = (shop, Inr (UnknownUser 7 ''Unknown User''))
   \<and> find (\<lambda>u. u_id u = 7) (users (fst (read_users_me idp shop ''token-7''))) = None"
  by (simp add: read_users_me_def get_current_user_id_def verify_token_def idp_def shop_def)

text \<open>
  \<open>get_current_user\<close> itself fails, and inserts nothing, when another row already
  holds the placeholder email.
\<close>

lemma second_shadow_user_rejected:
  "get_current_user idp
     (shop\<lparr>users := [\<lparr>u_id = 8, u_name = ''User'', u_email = ''user@example.com''\<rparr>]\<rparr>)
     ''token-7''
   = (shop\<lparr>users := [\<lparr>u_id = 8, u_name = ''User'', u_email = ''user@example.com''\<rparr>]\<rparr>,
      Inl InternalError)"
  by (simp add: get_current_user_def get_current_user_id_def verify_token_def idp_def shop_def
        Let_def)

text \<open>
  Claim C9, amended. For every token the identity service accepts, for a user
  identifier without a local row, while no local row holds the placeholder email:
  \<open>get_current_user\<close> appends the row with that identifier, name \<open>User\<close> and email
  \<open>user@example.com\<close>, returns it, and the row is found afterwards;
  \<open>get_current_user_id\<close> returns the identifier, and an endpoint that depends on it
  (\<open>read_users_me\<close>) leaves the store as it was.
\<close>

theorem get_current_user_creates_shadow:
  assumes "verify_token svc token = Some user_id"
    and "find (\<lambda>u. u_id u = user_id) (users d) = None"
    and "\<not> (\<exists>u \<in> set (users d). u_email u = ''user@example.com'')"
  shows "get_current_user_id svc token = Inr user_id
         \<and> get_current_user svc d token =
             (d\<lparr>users := users d @
                   [\<lparr>u_id = user_id, u_name = ''User'', u_email = ''user@example.com''\<rparr>]\<rparr>,
              Inr \<lparr>u_id = user_id, u_name = ''User'', u_email = ''user@example.com''\<rparr>)
         \<and> find (\<lambda>u. u_id u = user_id) (users (fst (get_current_user svc d token))) =
             Some \<lparr>u_id = user_id, u_name = ''User'', u_email = ''user@example.com''\<rparr>
         \<and> fst (read_users_me svc d token) = d"
proof -
  have id: "get_current_user_id svc token = Inr user_id"
    using assms(1) by (simp add: get_current_user_id_def)
  have g: "get_current_user svc d token =
             (d\<lparr>users := users d @
                   [\<lparr>u_id = user_id, u_name = ''User'', u_email = ''user@example.com''\<rparr>]\<rparr>,
              Inr \<lparr>u_id = user_id, u_name = ''User'', u_email = ''user@example.com''\<rparr>)"
    using assms(2,3) by (simp add: get_current_user_def id Let_def)
  have f: "find (\<lambda>u. u_id u = user_id) (users (fst (get_current_user svc d token))) =
             Some \<lparr>u_id = user_id, u_name = ''User'', u_email = ''user@example.com''\<rparr>"
    using assms(2) by (simp add: g find_append_None)
  have r: "fst (read_users_me svc d token) = d"
    by (simp add: read_users_me_def id split: option.splits)
  from id g f r show ?thesis by simp
qed

theorem get_current_user_creates_shadow_witness:
  "verify_token idp ''token-7'' = Some 7
   \<and> find (\<lambda>u. u_id u = 7) (users shop) = None
   \<and> \<not> (\<exists>u \<in> set (users shop). u_email u = ''user@example.com'')
   \<and> find (\<lambda>u. u_id u = 7) (users (fst (get_current_user idp shop ''token-7''))) =
       Some \<lparr>u_id = 7, u_name = ''User'', u_email = ''user@example.com''\<rparr>
   \<and> fst (read_users_me idp shop ''token-7'') = shop"
proof -
  have h1: "verify_token idp ''token-7'' = Some 7" by (simp add: verify_token_def idp_def)
  have h2: "find (\<lambda>u. u_id u = 7) (users shop) = None" by (simp add: shop_def)
  have h3: "\<not> (\<exists>u \<in> set (users shop). u_email u = ''user@example.com'')"
    by (simp add: shop_def)
  note shadow = get_current_user_creates_shadow [OF h1 h2 h3]
  show ?thesis using shadow h1 h2 h3 by blast
qed

subsection \<open>The foreign key of order items is kept\<close>

text \<open>
  The hypothesis of the create-then-cancel property holds of a store without order
  items and is kept by both order operations, hence by every sequence of them.
\<close>

lemma create_order_keeps_foreign_key:
  assumes "order_items_reference_orders d"
  shows "order_items_reference_orders (fst (create_order A now d user_id))"
proof -
  from create_order_commits_shape [of A now d user_id]
  consider (nothing) e where "create_order_commits A now d user_id = ([], Inl e)"
    | (both) ord d2 where
        "create_order_commits A now d user_id = ([d\<lparr>orders := orders d @ [ord]\<rparr>, d2], Inr ord)"
        "create_order_items (o_id ord) (filter (\<lambda>b. bi_user_id b = user_id) (basket_items d))
           (d\<lparr>orders := orders d @ [ord]\<rparr>) = Inr d2"
    by blast
  then show ?thesis
  proof cases
    case nothing
    then show ?thesis using assms by (simp add: create_order_def)
  next
    case both
    have r: "fst (create_order A now d user_id) = d2" using both(1) by (simp add: create_order_def)
    have o: "orders d2 = orders d @ [ord]" using create_order_items_fixed [OF both(2)] by simp
    have "oi_order_id i \<in> set (map o_id (orders d2))" if "i \<in> set (order_items d2)" for i
    proof -
      from create_order_items_new_items [OF both(2) that]
      have "i \<in> set (order_items d) \<or> oi_order_id i = o_id ord" by auto
      then show ?thesis
      proof
        assume "i \<in> set (order_items d)"
        then have "oi_order_id i \<in> set (map o_id (orders d))"
          using assms unfolding order_items_reference_orders_def by blast
        then show ?thesis by (simp add: o)
      next
        assume "oi_order_id i = o_id ord"
        then show ?thesis by (simp add: o)
      qed
    qed
    then show ?thesis unfolding r order_items_reference_orders_def by blast
  qed
qed

lemma cancel_order_keeps_foreign_key:
  assumes "order_items_reference_orders d"
  shows "order_items_reference_orders (fst (cancel_order d user_id order_id))"
  using assms
  by (cases "find (\<lambda>r. o_id r = order_id \<and> o_user_id r = user_id) (orders d)")
     (simp_all add: cancel_order_def order_items_reference_orders_def)

lemma run_keeps_foreign_key:
  "order_items_reference_orders d \<Longrightarrow> order_items_reference_orders (run A ops d)"
proof (induction ops arbitrary: d)
  case Nil
  then show ?case by (simp add: run_def)
next
  case (Cons op ops)
  have "order_items_reference_orders (apply_op A op d)"
    using Cons.prems
    by (cases op) (simp_all add: create_order_keeps_foreign_key cancel_order_keeps_foreign_key)
  then show ?case using Cons.IH [of "apply_op A op d"] by (simp add: run_def)
qed

subsection \<open>The order total\<close>

text \<open>
  Rounding to binary64 changes a value by at most \<open>2 powi (-53)\<close> of its magnitude.
  The price of a basket line goes through three roundings (the price, the quantity,
  the product), and each addition to the total through one more.
\<close>

lemma round_half_even_error: "\<bar>of_int (round_half_even x) - x\<bar> \<le> 1 / 2"
proof -
  have "of_int \<lfloor>x\<rfloor> \<le> x" "x < of_int \<lfloor>x\<rfloor> + 1" by linarith+
  then show ?thesis by (auto simp: round_half_even_def Let_def)
qed

lemma exponent2_bounds:
  assumes "x \<noteq> 0"
  shows "2 powi (exponent2 x) \<le> \<bar>x\<bar>" and "\<bar>x\<bar> < 2 powi (exponent2 x + 1)"
proof -
  obtain a b where q: "quotient_of \<bar>x\<bar> = (a, b)" by (cases "quotient_of \<bar>x\<bar>")
  have b: "0 < b" using q by (rule quotient_of_denom_pos)
  have x: "\<bar>x\<bar> = of_int a / of_int b" using q by (rule quotient_of_div)
  have "0 < \<bar>x\<bar>" using assms by simp
  then have a: "0 < a" using x b by (simp add: zero_less_divide_iff)
  let ?la = "bitlen a" and ?lb = "bitlen b"
  have la: "1 \<le> ?la" and lb: "1 \<le> ?lb"
    using a b bitlen_eq_zero_iff [of a] bitlen_eq_zero_iff [of b] bitlen_nonneg [of a]
      bitlen_nonneg [of b] by linarith+
  have "(2::int) ^ nat (?la - 1) \<le> a" "a < 2 ^ nat ?la" using bitlen_bounds [OF a] by simp_all
  then have "(2::rat) ^ nat (?la - 1) \<le> of_int a" "(of_int a :: rat) < 2 ^ nat ?la"
    by (metis of_int_le_iff of_int_numeral of_int_power, metis of_int_less_iff of_int_numeral of_int_power)
  then have a_lo: "(2::rat) powi (?la - 1) \<le> of_int a" and a_hi: "(of_int a :: rat) < 2 powi ?la"
    using la by (simp_all add: power_int_def)
  have "(2::int) ^ nat (?lb - 1) \<le> b" "b < 2 ^ nat ?lb" using bitlen_bounds [OF b] by simp_all
  then have "(2::rat) ^ nat (?lb - 1) \<le> of_int b" "(of_int b :: rat) < 2 ^ nat ?lb"
    by (metis of_int_le_iff of_int_numeral of_int_power, metis of_int_less_iff of_int_numeral of_int_power)
  then have b_lo: "(2::rat) powi (?lb - 1) \<le> of_int b" and b_hi: "(of_int b :: rat) < 2 powi ?lb"
    using lb by (simp_all add: power_int_def)
  have bpos: "(0::rat) < of_int b" using b by simp
  have lower: "(2::rat) powi (?la - ?lb - 1) < \<bar>x\<bar>"
  proof -
    have "(2::rat) powi (?la - ?lb - 1) * of_int b < 2 powi (?la - ?lb - 1) * 2 powi ?lb"
      using b_hi by (simp add: mult_strict_left_mono)
    also have "\<dots> = 2 powi (?la - 1)" by (simp add: power_int_add [symmetric])
    also have "\<dots> \<le> of_int a" by (rule a_lo)
    finally show ?thesis using bpos by (simp add: x pos_less_divide_eq)
  qed
  have upper: "\<bar>x\<bar> < (2::rat) powi (?la - ?lb + 1)"
  proof -
    have "of_int a < (2::rat) powi ?la" by (rule a_hi)
    also have "\<dots> = 2 powi (?la - ?lb + 1) * 2 powi (?lb - 1)"
      by (simp add: power_int_add [symmetric])
    also have "\<dots> \<le> 2 powi (?la - ?lb + 1) * of_int b"
      using b_lo by (simp add: mult_left_mono)
    finally show ?thesis using bpos by (simp add: x pos_divide_less_eq)
  qed
  show "2 powi (exponent2 x) \<le> \<bar>x\<bar>"
    using lower by (auto simp: exponent2_def q Let_def)
  show "\<bar>x\<bar> < 2 powi (exponent2 x + 1)"
    using upper by (auto simp: exponent2_def q Let_def not_le)
qed

lemma round_binary64_error: "\<bar>round_binary64 x - x\<bar> \<le> unit_roundoff * \<bar>x\<bar>"
proof (cases "x = 0")
  case True
  then show ?thesis by (simp add: round_binary64_def)
next
  case False
  let ?e = "exponent2 x"
  let ?ulp = "(2::rat) powi (?e - 52)"
  have pos: "0 < ?ulp" by simp
  have "round_binary64 x - x = (of_int (round_half_even (x / ?ulp)) - x / ?ulp) * ?ulp"
    using False pos by (simp add: round_binary64_def Let_def algebra_simps)
  then have "\<bar>round_binary64 x - x\<bar> = \<bar>of_int (round_half_even (x / ?ulp)) - x / ?ulp\<bar> * ?ulp"
    using pos by (simp add: abs_mult)
  also have "\<dots> \<le> 1 / 2 * ?ulp"
    using round_half_even_error [of "x / ?ulp"] pos by (simp add: mult_right_mono)
  also have "\<dots> = unit_roundoff * 2 powi ?e"
    by (simp add: unit_roundoff_def power_int_diff)
  also have "\<dots> \<le> unit_roundoff * \<bar>x\<bar>"
    using exponent2_bounds(1) [OF False] by (simp add: unit_roundoff_def)
  finally show ?thesis .
qed


lemma round_binary64_relative:
  assumes "\<bar>a - e\<bar> \<le> (c - 1) * t" and "\<bar>e\<bar> \<le> t" and "1 \<le> c"
  shows "\<bar>round_binary64 a - e\<bar> \<le> (c * (1 + unit_roundoff) - 1) * t"
proof -
  have u: "0 \<le> unit_roundoff" by (simp add: unit_roundoff_def)
  have "\<bar>a\<bar> \<le> \<bar>e\<bar> + \<bar>a - e\<bar>" by simp
  also have "\<dots> \<le> t + (c - 1) * t" using assms by simp
  finally have a: "\<bar>a\<bar> \<le> c * t" by (simp add: algebra_simps)
  have "\<bar>round_binary64 a - e\<bar> \<le> \<bar>round_binary64 a - a\<bar> + \<bar>a - e\<bar>" by simp
  also have "\<dots> \<le> unit_roundoff * \<bar>a\<bar> + (c - 1) * t"
    using round_binary64_error [of a] assms(1) by simp
  also have "\<dots> \<le> unit_roundoff * (c * t) + (c - 1) * t"
    using a u by (simp add: mult_left_mono)
  finally show ?thesis by (simp add: algebra_simps)
qed

lemma product_relative:
  fixes x y :: rat
  assumes "\<bar>x - X\<bar> \<le> (c1 - 1) * \<bar>X\<bar>" and "\<bar>y - Y\<bar> \<le> (c2 - 1) * \<bar>Y\<bar>"
    and "1 \<le> c1" and "1 \<le> c2"
  shows "\<bar>x * y - X * Y\<bar> \<le> (c1 * c2 - 1) * \<bar>X * Y\<bar>"
proof -
  have "x * y - X * Y = (x - X) * Y + X * (y - Y) + (x - X) * (y - Y)"
    by (simp add: algebra_simps)
  moreover have "\<bar>a + b + c\<bar> \<le> \<bar>a\<bar> + \<bar>b\<bar> + \<bar>c\<bar>" for a b c :: rat
    by linarith
  ultimately
  have "\<bar>x * y - X * Y\<bar> \<le> \<bar>(x - X) * Y\<bar> + \<bar>X * (y - Y)\<bar> + \<bar>(x - X) * (y - Y)\<bar>"
    by (simp only:)
  then have "\<bar>x * y - X * Y\<bar> \<le> \<bar>x - X\<bar> * \<bar>Y\<bar> + \<bar>X\<bar> * \<bar>y - Y\<bar> + \<bar>x - X\<bar> * \<bar>y - Y\<bar>"
    by (simp only: abs_mult)
  also have "\<dots> \<le> (c1 - 1) * \<bar>X\<bar> * \<bar>Y\<bar> + \<bar>X\<bar> * ((c2 - 1) * \<bar>Y\<bar>)
                    + (c1 - 1) * \<bar>X\<bar> * ((c2 - 1) * \<bar>Y\<bar>)"
  proof -
    have 1: "\<bar>x - X\<bar> * \<bar>Y\<bar> \<le> (c1 - 1) * \<bar>X\<bar> * \<bar>Y\<bar>"
      using assms(1) by (simp add: mult_right_mono)
    have 2: "\<bar>X\<bar> * \<bar>y - Y\<bar> \<le> \<bar>X\<bar> * ((c2 - 1) * \<bar>Y\<bar>)"
      using assms(2) by (simp add: mult_left_mono)
    have 3: "\<bar>x - X\<bar> * \<bar>y - Y\<bar> \<le> (c1 - 1) * \<bar>X\<bar> * ((c2 - 1) * \<bar>Y\<bar>)"
      using assms(1,2) by (intro mult_mono) simp_all
    from 1 2 3 show ?thesis by linarith
  qed
  also have "\<dots> = (c1 * c2 - 1) * \<bar>X * Y\<bar>" by (simp add: algebra_simps abs_mult)
  finally show ?thesis .
qed

lemma line_error:
  "\<bar>float_mul binary64 (to_float binary64 p) q - of_int (q * p) / 100\<bar>
     \<le> ((1 + unit_roundoff) ^ 3 - 1) * \<bar>of_int (q * p) / 100\<bar>"
proof -
  let ?u = unit_roundoff
  have u: "0 \<le> ?u" by (simp add: unit_roundoff_def)
  let ?P = "of_int p / 100 :: rat" and ?Q = "of_int q :: rat"
  let ?E = "of_int (q * p) / 100 :: rat"
  have eq: "?P * ?Q = ?E" by simp
  have p: "\<bar>round_binary64 ?P - ?P\<bar> \<le> ((1 + ?u) - 1) * \<bar>?P\<bar>"
    using round_binary64_error [of ?P] by simp
  have q: "\<bar>round_binary64 ?Q - ?Q\<bar> \<le> ((1 + ?u) - 1) * \<bar>?Q\<bar>"
    using round_binary64_error [of ?Q] by simp
  have "\<bar>round_binary64 ?P * round_binary64 ?Q - ?P * ?Q\<bar>
          \<le> ((1 + ?u) * (1 + ?u) - 1) * \<bar>?P * ?Q\<bar>"
    using u by (intro product_relative [OF p q]) simp_all
  then have pq: "\<bar>round_binary64 ?P * round_binary64 ?Q - ?E\<bar>
                   \<le> ((1 + ?u) * (1 + ?u) - 1) * \<bar>?E\<bar>"
    by (simp only: eq)
  have c: "1 \<le> (1 + ?u) * (1 + ?u)" using u by (simp add: algebra_simps)
  have "\<bar>round_binary64 (round_binary64 ?P * round_binary64 ?Q) - ?E\<bar>
          \<le> ((1 + ?u) * (1 + ?u) * (1 + ?u) - 1) * \<bar>?E\<bar>"
    by (rule round_binary64_relative [OF pq order_refl c])
  then show ?thesis by (simp add: binary64_def power3_eq_cube)
qed


lemma create_order_total_error:
  assumes "create_order_total binary64 ps basket tot = Inr t"
    and "\<bar>tot - S\<bar> \<le> ((1 + unit_roundoff) ^ m - 1) * T" and "\<bar>S\<bar> \<le> T" and "3 \<le> m"
  shows "\<bar>t - (S + of_int (exact_total ps basket) / 100)\<bar>
           \<le> ((1 + unit_roundoff) ^ (m + length basket) - 1)
               * (T + of_int (abs_total ps basket) / 100)"
  using assms
proof (induction basket arbitrary: tot S T m)
  case Nil
  then show ?case by (simp add: exact_total_def abs_total_def)
next
  case (Cons item rest)
  let ?u = unit_roundoff
  have u: "0 \<le> ?u" by (simp add: unit_roundoff_def)
  from Cons.prems(1) obtain product where
    p: "get_product ps (bi_product_id item) = Some product"
    by (auto split: option.splits)
  let ?line = "float_mul binary64 (to_float binary64 (p_price product)) (bi_quantity item)"
  let ?e = "of_int (bi_quantity item * p_price product) / 100 :: rat"
  let ?c = "(1 + ?u) ^ m"
  have rest: "create_order_total binary64 ps rest (round_binary64 (tot + ?line)) = Inr t"
    using Cons.prems(1) p by (simp add: binary64_def split: if_splits)
  have c1: "1 \<le> ?c" using u by simp
  have "(1 + ?u) ^ 3 \<le> ?c" using u Cons.prems(4) by (intro power_increasing) simp_all
  then have "((1 + ?u) ^ 3 - 1) * \<bar>?e\<bar> \<le> (?c - 1) * \<bar>?e\<bar>"
    by (intro mult_right_mono) simp_all
  then have line: "\<bar>?line - ?e\<bar> \<le> (?c - 1) * \<bar>?e\<bar>"
    using line_error [of "p_price product" "bi_quantity item"] by linarith
  have "\<bar>(tot + ?line) - (S + ?e)\<bar> \<le> \<bar>tot - S\<bar> + \<bar>?line - ?e\<bar>" by linarith
  also have "\<dots> \<le> (?c - 1) * T + (?c - 1) * \<bar>?e\<bar>" using Cons.prems(2) line by linarith
  finally have sum: "\<bar>(tot + ?line) - (S + ?e)\<bar> \<le> (?c - 1) * (T + \<bar>?e\<bar>)"
    by (simp add: algebra_simps)
  have bound: "\<bar>S + ?e\<bar> \<le> T + \<bar>?e\<bar>" using Cons.prems(3) by linarith
  have "\<bar>round_binary64 (tot + ?line) - (S + ?e)\<bar> \<le> (?c * (1 + ?u) - 1) * (T + \<bar>?e\<bar>)"
    by (rule round_binary64_relative [OF sum bound c1])
  then have step: "\<bar>round_binary64 (tot + ?line) - (S + ?e)\<bar>
                     \<le> ((1 + ?u) ^ Suc m - 1) * (T + \<bar>?e\<bar>)"
    by (simp add: mult.commute)
  have m: "3 \<le> Suc m" using Cons.prems(4) by simp
  have ex: "of_int (exact_total ps (item # rest)) / 100
              = ?e + (of_int (exact_total ps rest) / 100 :: rat)"
    by (simp add: exact_total_def unit_price_def p add_divide_distrib)
  have ab: "of_int (abs_total ps (item # rest)) / 100
              = \<bar>?e\<bar> + (of_int (abs_total ps rest) / 100 :: rat)"
    by (simp add: abs_total_def unit_price_def p add_divide_distrib)
  from Cons.IH [OF rest step bound m] show ?case
    by (simp only: ex ab add.assoc length_Cons add_Suc_right add_Suc)
qed

lemma power_one_plus_le:
  fixes x :: rat
  assumes "0 \<le> x" and "of_nat m * x \<le> 1 / 2"
  shows "(1 + x) ^ m \<le> 1 + 2 * of_nat m * x"
  using assms(2)
proof (induction m)
  case 0
  then show ?case by simp
next
  case (Suc m)
  have mx: "of_nat m * x \<le> 1 / 2"
  proof -
    have "of_nat m * x \<le> of_nat (Suc m) * x" using assms(1) by (simp add: mult_right_mono)
    then show ?thesis using Suc.prems by linarith
  qed
  have "(1 + x) ^ Suc m = (1 + x) * (1 + x) ^ m" by simp
  also have "\<dots> \<le> (1 + x) * (1 + 2 * of_nat m * x)"
    using Suc.IH [OF mx] assms(1) by (simp add: mult_left_mono)
  also have "\<dots> = 1 + 2 * of_nat (Suc m) * x + x * (2 * (of_nat m * x) - 1)"
    by (simp add: algebra_simps)
  also have "\<dots> \<le> 1 + 2 * of_nat (Suc m) * x"
  proof -
    have "x * (2 * (of_nat m * x) - 1) \<le> 0"
      using assms(1) mx by (intro mult_nonneg_nonpos) simp_all
    then show ?thesis by linarith
  qed
  finally show ?case .
qed


lemma abs_total_nonneg: "0 \<le> abs_total ps basket"
  by (auto simp: abs_total_def intro!: sum_list_nonneg)

lemma nearest_hundredth_close:
  assumes "\<bar>t - of_int n / 100\<bar> < 1 / 200"
  shows "nearest_hundredth t = n"
proof -
  have "\<bar>t * 100 - of_int n\<bar> < 1 / 2" using assms by (simp add: abs_if split: if_splits)
  then have "of_int n \<le> t * 100 + 1 / 2" and "t * 100 + 1 / 2 < of_int n + 1" by linarith+
  then show ?thesis unfolding nearest_hundredth_def by (rule floor_unique)
qed

text \<open>
  Claim C2 as stated (the total is the exact decimal sum of quantity times unit price
  for every non-empty basket whose products exist with sufficient stock) fails. In
  \<open>shop_large\<close> both stock checks pass, the exact sum is 12345678.91, and the total
  the handler computes is the float 12345676, whose nearest hundredth is 12345676.00:
  the first line exceeds \<open>2 ^ 53\<close>, where neighbouring floats are 4 apart.
\<close>

theorem order_total_counterexample:
  "snd (create_order binary64 0 shop_large 1) =
     Inr \<lparr>o_id = 1, o_user_id = 1, o_order_date = 0, o_total = 12345676\<rparr>
   \<and> nearest_hundredth 12345676 = 1234567600
   \<and> exact_total (products shop_large)
        (filter (\<lambda>b. bi_user_id b = 1) (basket_items shop_large)) = 1234567891"
proof -
  have "snd (create_order binary64 0 shop_large 1) =
          Inr \<lparr>o_id = 1, o_user_id = 1, o_order_date = 0, o_total = 12345676\<rparr>"
    by code_simp
  moreover have "nearest_hundredth 12345676 = 1234567600"
    by code_simp
  moreover have "exact_total (products shop_large)
        (filter (\<lambda>b. bi_user_id b = 1) (basket_items shop_large)) = 1234567891"
    by (simp add: exact_total_def unit_price_def get_product_def shop_large_def)
  ultimately show ?thesis by simp
qed

text \<open>
  Below the size bound the rounding errors of a successful call add up to less than
  half a hundredth.
\<close>

lemma order_total_within_half_hundredth:
  assumes created: "create_order binary64 now d user_id = (d1, Inr ord)"
    and small: "(int (length (filter (\<lambda>b. bi_user_id b = user_id) (basket_items d))) + 3)
                  * abs_total (products d) (filter (\<lambda>b. bi_user_id b = user_id) (basket_items d))
                < 2 ^ 51"
  shows "nearest_hundredth (o_total ord) =
           exact_total (products d) (filter (\<lambda>b. bi_user_id b = user_id) (basket_items d))"
proof -
  let ?basket = "filter (\<lambda>b. bi_user_id b = user_id) (basket_items d)"
  let ?u = unit_roundoff
  let ?n = "length ?basket + 3"
  let ?A = "abs_total (products d) ?basket"
  let ?E = "exact_total (products d) ?basket"
  have tot: "create_order_total binary64 (products d) ?basket 0 = Inr (o_total ord)"
    using create_order_success [OF created] by (simp add: binary64_def)
  have "\<bar>o_total ord - (0 + of_int ?E / 100)\<bar>
          \<le> ((1 + ?u) ^ (3 + length ?basket) - 1) * (0 + of_int ?A / 100)"
    by (rule create_order_total_error [OF tot]) simp_all
  then have err: "\<bar>o_total ord - of_int ?E / 100\<bar> \<le> ((1 + ?u) ^ ?n - 1) * (of_int ?A / 100)"
    by (simp add: add.commute)
  have A0: "0 \<le> ?A" by (rule abs_total_nonneg)
  have n_eq: "int ?n = int (length ?basket) + 3" by simp
  have small': "int ?n * ?A < 2 ^ 51" using small by (simp only: n_eq)
  show ?thesis
  proof (cases "?A = 0")
    case True
    then have "\<bar>o_total ord - of_int ?E / 100\<bar> < 1 / 200" using err by simp
    then show ?thesis by (rule nearest_hundredth_close)
  next
    case False
    then have A1: "1 \<le> ?A" using A0 by linarith
    have n51: "int ?n < 2 ^ 51"
    proof -
      have "int ?n * 1 \<le> int ?n * ?A" using A1 by (intro mult_left_mono) simp_all
      then have le: "int ?n \<le> int ?n * ?A" by (simp only: mult_1_right)
      show ?thesis by (rule le_less_trans [OF le small'])
    qed
    then have "(of_int (int ?n) :: rat) < of_int (2 ^ 51)" by (simp only: of_int_less_iff)
    then have nr: "(of_nat ?n :: rat) < 2 ^ 51" by simp
    have half: "of_nat ?n * ?u \<le> 1 / 2" using nr by (simp add: unit_roundoff_def)
    have u: "0 \<le> ?u" by (simp add: unit_roundoff_def)
    have "(1 + ?u) ^ ?n \<le> 1 + 2 * of_nat ?n * ?u" by (rule power_one_plus_le [OF u half])
    then have "((1 + ?u) ^ ?n - 1) * (of_int ?A / 100) \<le> 2 * of_nat ?n * ?u * (of_int ?A / 100)"
      using A0 by (intro mult_right_mono) simp_all
    also have "\<dots> = of_int (int ?n * ?A) / (100 * 2 ^ 52)"
      by (simp add: unit_roundoff_def)
    also have "\<dots> < 2 ^ 51 / (100 * 2 ^ 52)"
    proof -
      have "(of_int (int ?n * ?A) :: rat) < of_int (2 ^ 51)"
        using small' by (simp only: of_int_less_iff)
      then have "(of_int (int ?n * ?A) :: rat) < 2 ^ 51"
        by (simp only: of_int_power of_int_numeral)
      then show ?thesis by (rule divide_strict_right_mono) simp
    qed
    also have "\<dots> = 1 / 200" by simp
    finally have "\<bar>o_total ord - of_int ?E / 100\<bar> < 1 / 200" using err by linarith
    then show ?thesis by (rule nearest_hundredth_close)
  qed
qed

text \<open>
  A non-empty basket whose products all exist with sufficient stock is accepted by the
  first loop, and the handler then returns its order.
\<close>

lemma create_order_total_succeeds:
  "\<forall>b \<in> set basket. \<exists>p. get_product ps (bi_product_id b) = Some p
                            \<and> bi_quantity b \<le> p_stock p \<Longrightarrow>
     \<exists>t. create_order_total A ps basket tot = Inr t"
proof (induction basket arbitrary: tot)
  case Nil
  then show ?case by simp
next
  case (Cons item rest)
  then obtain p where "get_product ps (bi_product_id item) = Some p"
    and "bi_quantity item \<le> p_stock p" by auto
  then show ?case using Cons.IH Cons.prems by simp
qed

lemma create_order_succeeds:
  assumes "filter (\<lambda>b. bi_user_id b = user_id) (basket_items d) \<noteq> []"
    and "\<forall>b \<in> set (filter (\<lambda>b. bi_user_id b = user_id) (basket_items d)).
           \<exists>p. get_product (products d) (bi_product_id b) = Some p
               \<and> bi_quantity b \<le> p_stock p"
  shows "\<exists>d1 ord. create_order A now d user_id = (d1, Inr ord)"
proof -
  let ?basket = "filter (\<lambda>b. bi_user_id b = user_id) (basket_items d)"
  from create_order_total_succeeds [OF assms(2), of A "float_zero A"] obtain t where
    t: "create_order_total A (products d) ?basket (float_zero A) = Inr t" ..
  from create_order_commits_shape [of A now d user_id]
  consider (empty) "create_order_commits A now d user_id = ([], Inl EmptyBasket)"
    | (refused) e where "create_order_total A (products d) ?basket (float_zero A) = Inl e"
    | (both) ord d2 where
        "create_order_commits A now d user_id = ([d\<lparr>orders := orders d @ [ord]\<rparr>, d2], Inr ord)"
    by blast
  then show ?thesis
  proof cases
    case empty
    then show ?thesis using assms(1) t
      by (simp add: create_order_commits_def Let_def split: sum.splits)
  next
    case refused
    then show ?thesis using t by simp
  next
    case both
    then show ?thesis by (simp add: create_order_def)
  qed
qed

text \<open>
  Claim C2, amended. The total is computed in binary floating point, left to right,
  not in decimal arithmetic. For every non-empty basket whose products all exist with
  sufficient stock, and in which the number of basket rows plus three, times the sum
  over the rows of the magnitude of quantity times unit price in hundredths, is below
  \<open>2 ^ 51\<close>: \<open>create_order\<close> succeeds, and the hundredth nearest to the total of the
  order it returns is the exact decimal sum of quantity times unit price over the
  basket. For 3 units at 19.99 the total is the float
  2110006794167255 / 35184372088832, not the decimal 59.97, and its nearest hundredth
  is 59.97.
\<close>

theorem order_total_nearest_hundredth:
  assumes nonempty: "filter (\<lambda>b. bi_user_id b = user_id) (basket_items d) \<noteq> []"
    and in_stock: "\<forall>b \<in> set (filter (\<lambda>b. bi_user_id b = user_id) (basket_items d)).
           \<exists>p. get_product (products d) (bi_product_id b) = Some p
               \<and> bi_quantity b \<le> p_stock p"
    and small: "(int (length (filter (\<lambda>b. bi_user_id b = user_id) (basket_items d))) + 3)
                  * abs_total (products d) (filter (\<lambda>b. bi_user_id b = user_id) (basket_items d))
                < 2 ^ 51"
  shows "\<exists>d1 ord. create_order binary64 now d user_id = (d1, Inr ord)
           \<and> nearest_hundredth (o_total ord) =
               exact_total (products d) (filter (\<lambda>b. bi_user_id b = user_id) (basket_items d))"
proof -
  from create_order_succeeds [OF nonempty in_stock, of binary64 now] obtain d1 ord where
    created: "create_order binary64 now d user_id = (d1, Inr ord)" by blast
  have "nearest_hundredth (o_total ord) =
          exact_total (products d) (filter (\<lambda>b. bi_user_id b = user_id) (basket_items d))"
    by (rule order_total_within_half_hundredth [OF created small])
  with created show ?thesis by blast
qed

theorem order_total_nearest_hundredth_witness:
  "filter (\<lambda>b. bi_user_id b = 1) (basket_items shop_float) \<noteq> []
   \<and> (int (length (filter (\<lambda>b. bi_user_id b = 1) (basket_items shop_float))) + 3)
        * abs_total (products shop_float) (filter (\<lambda>b. bi_user_id b = 1) (basket_items shop_float))
      < 2 ^ 51
   \<and> exact_total (products shop_float)
        (filter (\<lambda>b. bi_user_id b = 1) (basket_items shop_float)) = 5997
   \<and> snd (create_order binary64 0 shop_float 1) =
       Inr \<lparr>o_id = 1, o_user_id = 1, o_order_date = 0,
            o_total = 2110006794167255 / 35184372088832\<rparr>
   \<and> (\<exists>d1 ord. create_order binary64 0 shop_float 1 = (d1, Inr ord)
          \<and> nearest_hundredth (o_total ord) = 5997)"
proof -
  have s: "snd (create_order binary64 0 shop_float 1) =
       Inr \<lparr>o_id = 1, o_user_id = 1, o_order_date = 0,
            o_total = 2110006794167255 / 35184372088832\<rparr>" by code_simp
  have n: "filter (\<lambda>b. bi_user_id b = 1) (basket_items shop_float) \<noteq> []"
    by (simp add: shop_float_def)
  have i: "\<forall>b \<in> set (filter (\<lambda>b. bi_user_id b = 1) (basket_items shop_float)).
           \<exists>p. get_product (products shop_float) (bi_product_id b) = Some p
               \<and> bi_quantity b \<le> p_stock p"
    by (simp add: shop_float_def get_product_def)
  have small: "(int (length (filter (\<lambda>b. bi_user_id b = 1) (basket_items shop_float))) + 3)
        * abs_total (products shop_float) (filter (\<lambda>b. bi_user_id b = 1) (basket_items shop_float))
      < 2 ^ 51"
    by (simp add: abs_total_def unit_price_def get_product_def shop_float_def)
  have e: "exact_total (products shop_float)
        (filter (\<lambda>b. bi_user_id b = 1) (basket_items shop_float)) = 5997"
    by (simp add: exact_total_def unit_price_def get_product_def shop_float_def)
  note t = order_total_nearest_hundredth [OF n i small, of 0]
  show ?thesis using t s n small e by simp
qed

subsection \<open>Two orders for the last unit\<close>

text \<open>The handler is its first transaction followed by its second.\<close>

lemma create_order_two_transactions:
  "create_order A now d user_id =
     (case create_order_begin A now d user_id of
        (d1, Inl e) \<Rightarrow> (d1, Inl e)
      | (d1, Inr pending) \<Rightarrow> create_order_finish d1 pending)"
  by (simp add: create_order_def create_order_commits_def create_order_begin_def
        create_order_finish_def Let_def split: sum.splits)

text \<open>
  Claim C10 as stated (of two concurrent calls for a product with stock 1, each
  ordering one, exactly one succeeds) fails. The stock test and the decrement are in
  different transactions: when both first transactions run before either second
  one, both tests see stock 1, both calls answer with their order, and the stock
  ends at \<open>-1\<close>.
\<close>

theorem two_orders_counterexample:
  "(\<exists>d4. two_orders_interleaved exact 0 0 shop_last_unit 1 2 =
           (d4, Inr \<lparr>o_id = 1, o_user_id = 1, o_order_date = 0, o_total = 1999\<rparr>,
                Inr \<lparr>o_id = 2, o_user_id = 2, o_order_date = 0, o_total = 1999\<rparr>)
         \<and> stock_of d4 10 = Some (- 1))
   \<and> stock_of shop_last_unit 10 = Some 1
   \<and> basket_qty shop_last_unit 1 10 = 1 \<and> basket_qty shop_last_unit 2 10 = 1"
proof -
  have "snd (two_orders_interleaved exact 0 0 shop_last_unit 1 2) =
          (Inr \<lparr>o_id = 1, o_user_id = 1, o_order_date = 0, o_total = 1999\<rparr>,
           Inr \<lparr>o_id = 2, o_user_id = 2, o_order_date = 0, o_total = 1999\<rparr>)"
    by code_simp
  moreover have "stock_of (fst (two_orders_interleaved exact 0 0 shop_last_unit 1 2)) 10
                   = Some (- 1)"
    by code_simp
  moreover have "stock_of shop_last_unit 10 = Some 1"
    "basket_qty shop_last_unit 1 10 = 1" "basket_qty shop_last_unit 2 10 = 1"
    by (simp_all add: stock_of_def get_product_def basket_qty_def shop_last_unit_def shop_def)
  ultimately show ?thesis by (metis prod.collapse)
qed

text \<open>
  Claim C10, amended. For two \<open>create_order\<close> calls by users whose baskets each hold
  one row, of quantity 1, for the same product with stock 1, run one after the other:
  the first call succeeds, the second fails with insufficient stock (status 400) and
  changes nothing, and the stock ends at 0; both never succeed.
\<close>

theorem two_orders_in_sequence:
  assumes basket_a: "filter (\<lambda>b. bi_user_id b = user_a) (basket_items d) = [row_a]"
    and basket_b: "filter (\<lambda>b. bi_user_id b = user_b) (basket_items d) = [row_b]"
    and keys: "bi_id row_a \<noteq> bi_id row_b"
    and product: "bi_product_id row_a = pid" "bi_product_id row_b = pid"
    and one_each: "bi_quantity row_a = 1" "bi_quantity row_b = 1"
    and last_unit: "stock_of d pid = Some 1"
  shows "\<exists>d1 ord. create_order A now_a d user_a = (d1, Inr ord)
           \<and> create_order A now_b d1 user_b = (d1, Inl (InsufficientStock pid))
           \<and> status_code (InsufficientStock pid) = 400
           \<and> stock_of d1 pid = Some 0"
proof -
  from last_unit obtain p where p: "get_product (products d) pid = Some p" and one: "p_stock p = 1"
    by (auto simp: stock_of_def)
  have pid: "p_id p = pid" using get_product_Some [OF p] by simp
  define ord where "ord = \<lparr>o_id = fresh_id (map o_id (orders d)), o_user_id = user_a,
      o_order_date = now_a,
      o_total = float_add A (float_zero A) (float_mul A (to_float A (p_price p)) 1)\<rparr>"
  define d1 where "d1 = d\<lparr>orders := orders d @ [ord],
               order_items := order_items d @
                  [\<lparr>oi_id = fresh_id (map oi_id (order_items d)),
                    oi_order_id = o_id ord,
                    oi_product_id = pid,
                    oi_quantity = 1,
                    oi_price_at_purchase = p_price p\<rparr>],
               products := set_stock (products d) pid 0,
               basket_items := filter (\<lambda>b. bi_id b \<noteq> bi_id row_a) (basket_items d)\<rparr>"
  have first: "create_order A now_a d user_a = (d1, Inr ord)"
    using p one pid
    by (simp add: create_order_def create_order_commits_def basket_a product one_each Let_def
          d1_def ord_def)
  have "filter (\<lambda>b. bi_user_id b = user_b) (basket_items d1)
          = filter (\<lambda>b. bi_id b \<noteq> bi_id row_a) (filter (\<lambda>b. bi_user_id b = user_b) (basket_items d))"
    by (simp add: d1_def conj_commute)
  also have "\<dots> = [row_b]" using keys by (simp only: basket_b) simp
  finally have basket_b': "filter (\<lambda>b. bi_user_id b = user_b) (basket_items d1) = [row_b]" .
  have p': "get_product (products d1) pid = Some (p\<lparr>p_stock := 0\<rparr>)"
    using p by (simp add: d1_def get_product_set_stock)
  have second: "create_order A now_b d1 user_b = (d1, Inl (InsufficientStock pid))"
    using pid
    by (simp add: create_order_def create_order_commits_def basket_b' p' product one_each Let_def)
  have "stock_of d1 pid = Some 0" using p' by (simp add: stock_of_def)
  with first second show ?thesis by (intro exI [of _ d1] exI [of _ ord]) simp
qed

theorem two_orders_in_sequence_witness:
  "filter (\<lambda>b. bi_user_id b = 1) (basket_items shop_last_unit)
     = [\<lparr>bi_id = 1, bi_user_id = 1, bi_product_id = 10, bi_quantity = 1\<rparr>]
   \<and> filter (\<lambda>b. bi_user_id b = 2) (basket_items shop_last_unit)
     = [\<lparr>bi_id = 2, bi_user_id = 2, bi_product_id = 10, bi_quantity = 1\<rparr>]
   \<and> stock_of shop_last_unit 10 = Some 1
   \<and> (\<exists>d1 ord. create_order exact 0 shop_last_unit 1 = (d1, Inr ord)
          \<and> create_order exact 0 d1 2 = (d1, Inl (InsufficientStock 10))
          \<and> stock_of d1 10 = Some 0)"
proof -
  let ?a = "\<lparr>bi_id = 1, bi_user_id = 1, bi_product_id = 10, bi_quantity = 1\<rparr>"
  let ?b = "\<lparr>bi_id = 2, bi_user_id = 2, bi_product_id = 10, bi_quantity = 1\<rparr>"
  have a: "filter (\<lambda>b. bi_user_id b = 1) (basket_items shop_last_unit) = [?a]"
    and b: "filter (\<lambda>b. bi_user_id b = 2) (basket_items shop_last_unit) = [?b]"
    and s: "stock_of shop_last_unit 10 = Some 1"
    by (simp_all add: shop_last_unit_def shop_def stock_of_def get_product_def)
  have k: "bi_id ?a \<noteq> bi_id ?b" by simp
  have pa: "bi_product_id ?a = 10" and pb: "bi_product_id ?b = 10"
    and qa: "bi_quantity ?a = 1" and qb: "bi_quantity ?b = 1" by simp_all
  note seq = two_orders_in_sequence [OF a b k pa pb qa qb s, of exact 0 0]
  show ?thesis using seq a b s by blast
qed

end
